theory Spec2Isabelle
  imports Main "HOL-Library.Char_ord" "HOL-Library.List_Lexorder" "HOL-Library.Product_Lexorder"
    "HOL-Library.Multiset" "HOL-Library.Sublist"
begin

section \<open>Values, their string form and their ordering\<close>

text \<open>
  The report module (\<^verbatim>\<open>matgendb/vv/report.py\<close>, Python 2) stores arbitrary Python objects
  in table cells and header values. The model covers the scalar values \<^verbatim>\<open>None\<close>, booleans,
  (unbounded) integers and byte strings. Unicode strings are modelled where a row is added
  to a table (their \<^verbatim>\<open>str\<close> can raise); floats and the document types of the database
  driver are outside the model.
\<close>

datatype pyval = VNone | VBool bool | VInt int | VStr string

datatype py_error = ValueError | IndexError | TypeError | AttributeError | UnicodeEncodeError

text \<open>\<^verbatim>\<open>str(v)\<close>: decimal digits for integers, the constant names for the others.\<close>

definition digit_char :: "nat \<Rightarrow> char" where
  "digit_char d = char_of (48 + d)"

fun str_nat :: "nat \<Rightarrow> string" where
  "str_nat n = (if n < 10 then [digit_char n] else str_nat (n div 10) @ [digit_char (n mod 10)])"

declare str_nat.simps [simp del]

definition str_int :: "int \<Rightarrow> string" where
  "str_int i = (if i < 0 then CHR ''-'' # str_nat (nat (- i)) else str_nat (nat i))"

fun py_str :: "pyval \<Rightarrow> string" where
  "py_str VNone = ''None''"
| "py_str (VBool b) = (if b then ''True'' else ''False'')"
| "py_str (VInt i) = str_int i"
| "py_str (VStr s) = s"

text \<open>Truth value of an object, as tested by \<^verbatim>\<open>if x\<close> and \<^verbatim>\<open>x and y\<close>.\<close>

fun truthy :: "pyval \<Rightarrow> bool" where
  "truthy VNone = False"
| "truthy (VBool b) = b"
| "truthy (VInt i) = (i \<noteq> 0)"
| "truthy (VStr s) = (s \<noteq> [])"

text \<open>
  Python 2 orders any two objects: \<^verbatim>\<open>None\<close> is below everything, numbers (booleans count as
  0 and 1) are compared by value and are below strings, strings are compared bytewise.
  \<open>py_key\<close> maps a value to its position in that order; \<^verbatim>\<open>a == b\<close>, \<^verbatim>\<open>a < b\<close> and
  \<^verbatim>\<open>a >= b\<close> are comparisons of positions.
\<close>

fun py_key :: "pyval \<Rightarrow> nat \<times> int \<times> string" where
  "py_key VNone = (0, 0, [])"
| "py_key (VBool b) = (1, (if b then 1 else 0), [])"
| "py_key (VInt i) = (1, i, [])"
| "py_key (VStr s) = (2, 0, s)"

definition py_eq :: "pyval \<Rightarrow> pyval \<Rightarrow> bool" where
  "py_eq a b = (py_key a = py_key b)"

definition py_lt :: "pyval \<Rightarrow> pyval \<Rightarrow> bool" where
  "py_lt a b = (py_key a < py_key b)"

definition py_ge :: "pyval \<Rightarrow> pyval \<Rightarrow> bool" where
  "py_ge a b = (py_key a \<ge> py_key b)"

text \<open>\<^verbatim>\<open>isinstance(x, int)\<close>: \<^verbatim>\<open>bool\<close> is a subclass of \<^verbatim>\<open>int\<close>.\<close>

fun isinstance_int :: "pyval \<Rightarrow> bool" where
  "isinstance_int (VInt i) = True"
| "isinstance_int (VBool b) = True"
| "isinstance_int v = False"

text \<open>The integer an int instance denotes when used as a list index.\<close>

fun int_of :: "pyval \<Rightarrow> int" where
  "int_of (VInt i) = i"
| "int_of (VBool b) = (if b then 1 else 0)"
| "int_of v = 0"

text \<open>
  The position that index \<open>i\<close> denotes in a list of \<open>n\<close> elements, for \<^verbatim>\<open>xs[i]\<close> and
  \<^verbatim>\<open>xs[i] = v\<close>: an index from \<open>-n\<close> to \<open>-1\<close> counts from the end, and an index outside
  \<open>-n .. n-1\<close> raises \<^verbatim>\<open>IndexError\<close> (no position).
\<close>

definition py_pos :: "nat \<Rightarrow> int \<Rightarrow> nat option" where
  "py_pos n i =
     (if 0 \<le> i \<and> i < int n then Some (nat i)
      else if i < 0 \<and> - int n \<le> i then Some (nat (int n + i))
      else None)"

text \<open>\<^verbatim>\<open>xs.index(x)\<close>: position of the first element equal to \<open>x\<close>, if any.\<close>

fun list_index :: "string list \<Rightarrow> pyval \<Rightarrow> nat option" where
  "list_index [] x = None"
| "list_index (c # cs) x =
     (if py_eq (VStr c) x then Some 0
      else (case list_index cs x of None \<Rightarrow> None | Some j \<Rightarrow> Some (Suc j)))"

section \<open>Headers\<close>

text \<open>\<^verbatim>\<open>Header\<close>: a title and the (key, value) pairs in insertion order.\<close>

record Header =
  title :: string
  kv :: "(string \<times> pyval) list"

definition Header_init :: "string \<Rightarrow> Header" where
  "Header_init t = \<lparr>title = t, kv = []\<rparr>"

definition Header_add :: "Header \<Rightarrow> string \<Rightarrow> pyval \<Rightarrow> Header" where
  "Header_add h k v = h\<lparr>kv := kv h @ [(k, v)]\<rparr>"

definition Header_get :: "Header \<Rightarrow> string \<Rightarrow> pyval list" where
  "Header_get h key = map snd (filter (\<lambda>p. fst p = key) (kv h))"

text \<open>
  A dictionary is kept as an association list with one entry per key. Storing under a key
  already present replaces the value. (The iteration order of a Python 2 dictionary is
  unspecified; the list order stands for whichever order the interpreter picks.)
\<close>

fun dict_set :: "(string \<times> 'v) list \<Rightarrow> string \<Rightarrow> 'v \<Rightarrow> (string \<times> 'v) list" where
  "dict_set [] k v = [(k, v)]"
| "dict_set ((k', v') # d) k v = (if k' = k then (k, v) # d else (k', v') # dict_set d k v)"

definition dict_of :: "(string \<times> 'v) list \<Rightarrow> (string \<times> 'v) list" where
  "dict_of ps = foldl (\<lambda>d p. dict_set d (fst p) (snd p)) [] ps"

definition Header_to_dict :: "Header \<Rightarrow> (string \<times> pyval) list" where
  "Header_to_dict h = dict_of (kv h)"

section \<open>Tables\<close>

text \<open>
  \<^verbatim>\<open>Table\<close>. The row type is a parameter: rows are lists of values where only the table
  is looked at, and references into a store of list objects where aliasing matters.
\<close>

record 'r Table =
  colnames :: "string list"
  rows :: "'r list"
  width :: nat
  max_col_widths :: "nat list"

type_synonym row = "pyval list"

definition Table_init :: "string list \<Rightarrow> 'r Table" where
  "Table_init cn = \<lparr>colnames = cn, rows = [], width = length cn, max_col_widths = map length cn\<rparr>"

text \<open>
  The loop of \<^verbatim>\<open>Table.add\<close> over \<^verbatim>\<open>enumerate(values)\<close>, started at index \<open>i\<close>. Reading
  \<^verbatim>\<open>self._max_col_widths[i]\<close> beyond the end of the list raises \<^verbatim>\<open>IndexError\<close>; the widths
  written so far stay written.
\<close>

fun add_loop :: "nat \<Rightarrow> row \<Rightarrow> nat list \<Rightarrow> py_error option \<times> nat list" where
  "add_loop i [] ws = (None, ws)"
| "add_loop i (v # vs) ws =
     (if i < length ws
      then (let n = length (py_str v)
            in add_loop (Suc i) vs (if ws ! i < n then ws[i := n] else ws))
      else (Some IndexError, ws))"

text \<open>\<^verbatim>\<open>Table.add\<close> returns the exception raised, if any, and the table as the call leaves it.\<close>

definition Table_add :: "row Table \<Rightarrow> row \<Rightarrow> py_error option \<times> row Table" where
  "Table_add T vals =
     (if length vals \<noteq> width T then (Some ValueError, T)
      else (let T1 = T\<lparr>rows := rows T @ [vals]\<rparr>;
                (e, ws) = add_loop 0 vals (max_col_widths T1)
            in (e, T1\<lparr>max_col_widths := ws\<rparr>)))"

text \<open>A sequence of \<^verbatim>\<open>add\<close> calls; the first exception ends it.\<close>

fun add_all :: "row Table \<Rightarrow> row list \<Rightarrow> py_error option \<times> row Table" where
  "add_all T [] = (None, T)"
| "add_all T (r # rs) =
     (case Table_add T r of
        (Some e, T') \<Rightarrow> (Some e, T')
      | (None, T') \<Rightarrow> add_all T' rs)"

text \<open>
  \<^verbatim>\<open>self._rows.sort(key=itemgetter(colnum))\<close>: the keys are computed first, and a row too
  short for \<open>colnum\<close> raises \<^verbatim>\<open>IndexError\<close> and leaves the list as it was. The built-in sort is
  stable; \<open>sort_key\<close> is the stable insertion sort of the list library.
\<close>

definition sort_rows :: "nat \<Rightarrow> row list \<Rightarrow> py_error + row list" where
  "sort_rows colnum rs =
     (if list_all (\<lambda>r. colnum < length r) rs
      then Inr (sort_key (\<lambda>r. py_key (r ! colnum)) rs)
      else Inl IndexError)"

definition Table_sortby :: "row Table \<Rightarrow> pyval \<Rightarrow> py_error option \<times> row Table" where
  "Table_sortby T name_or_index =
     (let (name, index) = (if isinstance_int name_or_index then (VNone, name_or_index)
                           else (name_or_index, VNone))
      in case (if name \<noteq> VNone
               then (case list_index (colnames T) name of
                       None \<Rightarrow> Inl ValueError
                     | Some colnum \<Rightarrow> Inr colnum)
               else (if py_lt index (VInt 0) \<or> py_ge index (VInt (int (width T)))
                     then Inl ValueError
                     else Inr (nat (int_of index))))
         of Inl e \<Rightarrow> (Some e, T)
          | Inr colnum \<Rightarrow>
              (case sort_rows colnum (rows T) of
                 Inl e \<Rightarrow> (Some e, T)
               | Inr rs \<Rightarrow> (None, T\<lparr>rows := rs\<rparr>)))"

text \<open>The \<^verbatim>\<open>values\<close> property: one dictionary per row. A row or a list of column names
  shorter than the arity raises \<^verbatim>\<open>IndexError\<close>.\<close>

definition Table_values :: "row Table \<Rightarrow> py_error + (string \<times> pyval) list list" where
  "Table_values T =
     (if list_all (\<lambda>r. width T \<le> length r \<and> width T \<le> length (colnames T)) (rows T)
      then Inr (map (\<lambda>r. dict_of (map (\<lambda>i. (colnames T ! i, r ! i)) [0 ..< width T])) (rows T))
      else Inl IndexError)"

definition column_names :: "'r Table \<Rightarrow> string list" where
  "column_names T = colnames T"

definition column_widths :: "'r Table \<Rightarrow> nat list" where
  "column_widths T = max_col_widths T"

definition ncol :: "'r Table \<Rightarrow> nat" where
  "ncol T = width T"

definition nrow :: "'r Table \<Rightarrow> nat" where
  "nrow T = length (rows T)"

text \<open>
  The state of a table built by the constructor and successful \<^verbatim>\<open>add\<close> calls: the arity is
  the number of column names, there is one width per column, every row has the arity.
\<close>

definition table_ok :: "row Table \<Rightarrow> bool" where
  "table_ok T =
     (width T = length (colnames T) \<and> length (max_col_widths T) = width T
      \<and> list_all (\<lambda>r. length r = width T) (rows T))"

section \<open>Report tree\<close>

text \<open>
  \<^verbatim>\<open>ReportSection\<close>: a header, an optional body (a table) and the ordered child sections.
  \<^verbatim>\<open>Report\<close>: a header and the ordered sections.
\<close>

datatype 'r ReportSection =
  ReportSection (header: Header) (body: "'r Table option") (subsections: "'r ReportSection list")

record 'r Report =
  hdr :: Header
  sections :: "'r ReportSection list"

definition Report_init :: "Header \<Rightarrow> 'r Report" where
  "Report_init h = \<lparr>hdr = h, sections = []\<rparr>"

definition add_section :: "'r Report \<Rightarrow> 'r ReportSection \<Rightarrow> 'r Report" where
  "add_section rep s = rep\<lparr>sections := sections rep @ [s]\<rparr>"

definition is_empty :: "'r Report \<Rightarrow> bool" where
  "is_empty rep = (length (sections rep) = 0)"

section \<open>HTML formatter\<close>

record HTMLFormatter =
  sep :: string
  idcol :: int
  css :: string

text \<open>\<^verbatim>\<open>sep.join(text)\<close>.\<close>

fun join :: "string \<Rightarrow> string list \<Rightarrow> string" where
  "join s [] = []"
| "join s [x] = x"
| "join s (x # y # ys) = x @ s @ join s (y # ys)"

text \<open>Running a loop body over a list and appending what it emits; the first exception
  ends the loop.\<close>

fun collect :: "('a \<Rightarrow> py_error + string list) \<Rightarrow> 'a list \<Rightarrow> py_error + string list" where
  "collect f [] = Inr []"
| "collect f (x # xs) =
     (case f x of
        Inl e \<Rightarrow> Inl e
      | Inr ls \<Rightarrow> (case collect f xs of Inl e \<Rightarrow> Inl e | Inr ms \<Rightarrow> Inr (ls @ ms)))"

text \<open>The definition list that renders the pairs of a header.\<close>

definition dl_lines :: "string \<Rightarrow> Header \<Rightarrow> string list" where
  "dl_lines cls h =
     [''<dl class=\"'' @ cls @ ''\">'']
     @ concat (map (\<lambda>p. [''<dt>'' @ fst p @ ''</dt>'', ''<dd>'' @ py_str (snd p) @ ''</dd>'']) (kv h))
     @ [''</dl>'']"

text \<open>\<^verbatim>\<open>('even', 'odd')[i % 2]\<close>.\<close>

definition rclass :: "nat \<Rightarrow> string" where
  "rclass i = (if i mod 2 = 0 then ''even'' else ''odd'')"

text \<open>
  The loop over the rows of a table (lines 232 to 245), with \<open>prev_key\<close> and the stripe
  counter \<open>i\<close> as loop state. For each row it yields the value of \<open>i\<close> that picks the row
  class and the cells to display. \<^verbatim>\<open>row = list(row)\<close> makes the displayed row a copy, so the
  assignment to the id cell does not reach the table.
\<close>

fun stripe_rows :: "int \<Rightarrow> pyval \<Rightarrow> nat \<Rightarrow> row list \<Rightarrow> py_error + (nat \<times> row) list" where
  "stripe_rows c prev_key i [] = Inr []"
| "stripe_rows c prev_key i (r # rs) =
     (case py_pos (length r) c of
        None \<Rightarrow> Inl IndexError
      | Some j \<Rightarrow>
          (let key = r ! j
           in if truthy prev_key \<and> py_eq key prev_key
              then (case stripe_rows c prev_key i rs of
                      Inl e \<Rightarrow> Inl e
                    | Inr out \<Rightarrow> Inr ((i, r[j := VStr []]) # out))
              else (case stripe_rows c key (Suc i) rs of
                      Inl e \<Rightarrow> Inl e
                    | Inr out \<Rightarrow> Inr ((Suc i, r) # out))))"

definition tr_lines :: "nat \<times> row \<Rightarrow> string list" where
  "tr_lines p =
     [''<tr class=\"'' @ rclass (fst p) @ ''\">'']
     @ map (\<lambda>v. ''<td>'' @ py_str v @ ''</td>'') (snd p)
     @ [''</tr>'']"

definition html_table :: "int \<Rightarrow> row Table \<Rightarrow> py_error + string list" where
  "html_table c T =
     (case stripe_rows c VNone 0 (rows T) of
        Inl e \<Rightarrow> Inl e
      | Inr out \<Rightarrow>
          Inr ([''<table>'', ''<tr>'']
               @ map (\<lambda>name. ''<th>'' @ name @ ''</th>'') (column_names T)
               @ [''</tr>'']
               @ concat (map tr_lines out)
               @ [''</table>'']))"

text \<open>A sub-section without a body has no \<^verbatim>\<open>column_names\<close>: \<^verbatim>\<open>AttributeError\<close>.\<close>

definition html_cond :: "int \<Rightarrow> row ReportSection \<Rightarrow> py_error + string list" where
  "html_cond c cs =
     (case body cs of
        None \<Rightarrow> Inl AttributeError
      | Some T \<Rightarrow>
          (case html_table c T of
             Inl e \<Rightarrow> Inl e
           | Inr ls \<Rightarrow>
               Inr ([''<h3>'' @ title (header cs) @ ''</h3>'']
                    @ dl_lines ''subsectmeta'' (header cs) @ ls)))"

definition html_section :: "int \<Rightarrow> row ReportSection \<Rightarrow> py_error + string list" where
  "html_section c s =
     (case collect (html_cond c) (subsections s) of
        Inl e \<Rightarrow> Inl e
      | Inr ls \<Rightarrow>
          Inr ([''<h2>'' @ title (header s) @ ''</h2>'']
               @ dl_lines ''sectmeta'' (header s) @ ls))"

definition HTMLFormatter_lines :: "HTMLFormatter \<Rightarrow> row Report \<Rightarrow> py_error + string list" where
  "HTMLFormatter_lines F report =
     (case collect (html_section (idcol F)) (sections report) of
        Inl e \<Rightarrow> Inl e
      | Inr ls \<Rightarrow>
          Inr ([''<!DOCTYPE html>'', ''<html>'',
                ''<title>'' @ title (hdr report) @ ''</title>'', ''<head>'']
               @ (if css F \<noteq> [] then [''<style>'', css F, ''</style>''] else [])
               @ [''</head>'', ''<body>'', ''<h1>'' @ title (hdr report) @ ''</h1>'']
               @ dl_lines ''rptmeta'' (hdr report)
               @ ls
               @ [''</body>'', ''</html>'']))"

definition HTMLFormatter_format :: "HTMLFormatter \<Rightarrow> row Report \<Rightarrow> py_error + string" where
  "HTMLFormatter_format F report =
     (case HTMLFormatter_lines F report of
        Inl e \<Rightarrow> Inl e
      | Inr text \<Rightarrow> Inr (join (sep F) text))"

section \<open>Markdown formatter\<close>

text \<open>\<^verbatim>\<open>', '.join('{}={}'.format(k, v) for k, v in d.iteritems())\<close>.\<close>

definition mapdump :: "(string \<times> pyval) list \<Rightarrow> string" where
  "mapdump d = join '', '' (map (\<lambda>p. fst p @ ''='' @ py_str (snd p)) d)"

text \<open>\<^verbatim>\<open>"{:Ns}".format(s)\<close>: the string in a field of at least \<open>N\<close> characters; strings are
  left-aligned and padded with spaces, and a longer string is not cut.\<close>

definition format_s :: "nat \<Rightarrow> string \<Rightarrow> string" where
  "format_s n s = s @ replicate (n - length s) CHR '' ''"

text \<open>\<^verbatim>\<open>_fixed_width\<close>: \<^verbatim>\<open>zip\<close> stops at the shorter of the two lists.\<close>

definition fixed_width :: "pyval list \<Rightarrow> nat list \<Rightarrow> string" where
  "fixed_width vals widths =
     concat (map (\<lambda>p. format_s (fst p + 1) (py_str (snd p))) (zip widths vals))"

text \<open>The lines for the table of a sub-section: the column names, then one line per row.\<close>

definition md_table :: "row Table \<Rightarrow> string list" where
  "md_table tbl =
     (''    '' @ fixed_width (map VStr (column_names tbl)) (column_widths tbl))
     # map (\<lambda>r. ''    '' @ fixed_width r (column_widths tbl)) (rows tbl)"

text \<open>\<^verbatim>\<open>Header\<close> is a classic class with neither \<^verbatim>\<open>__nonzero__\<close> nor \<^verbatim>\<open>__len__\<close>, so the tests
  \<^verbatim>\<open>if section.header\<close> and \<^verbatim>\<open>if cond.header\<close> always succeed.\<close>

definition md_cond :: "row ReportSection \<Rightarrow> py_error + string list" where
  "md_cond cond =
     (case body cond of
        None \<Rightarrow> Inl AttributeError
      | Some tbl \<Rightarrow>
          Inr ([[CHR 0x0A] @ ''### '' @ title (header cond) @ '' ###'' @ [CHR 0x0A],
                ''Info: '' @ mapdump (Header_to_dict (header cond)),
                [CHR 0x0A] @ ''Violations:'' @ [CHR 0x0A]]
               @ md_table tbl))"

definition md_section :: "row ReportSection \<Rightarrow> py_error + string list" where
  "md_section s =
     (case collect md_cond (subsections s) of
        Inl e \<Rightarrow> Inl e
      | Inr ls \<Rightarrow>
          Inr ([[CHR 0x0A] @ ''## '' @ title (header s) @ '' ##'' @ [CHR 0x0A],
                ''Info: '' @ mapdump (Header_to_dict (header s))]
               @ ls))"

definition MarkdownFormatter_lines :: "row Report \<Rightarrow> py_error + string list" where
  "MarkdownFormatter_lines report =
     (case collect md_section (sections report) of
        Inl e \<Rightarrow> Inl e
      | Inr ls \<Rightarrow>
          Inr ([''# '' @ title (hdr report) @ '' #'' @ [CHR 0x0A],
                ''Info: '' @ mapdump (Header_to_dict (hdr report))]
               @ ls))"

definition MarkdownFormatter_format :: "row Report \<Rightarrow> py_error + string" where
  "MarkdownFormatter_format report =
     (case MarkdownFormatter_lines report of
        Inl e \<Rightarrow> Inl e
      | Inr lines \<Rightarrow> Inr (join [CHR 0x0A] lines))"

section \<open>Emailer\<close>

record Emailer =
  sender :: string
  recipients :: "string list"
  subject :: string
  server :: string
  port :: "int option"

text \<open>The message built by \<^verbatim>\<open>MIMEText(text, sub_fmt)\<close> and the three header assignments.\<close>

record Message =
  subtype :: string
  payload :: string
  msg_headers :: "(string \<times> string) list"

text \<open>
  The SMTP library is the environment of \<^verbatim>\<open>send\<close>. For each of the three calls it says
  whether the call raises (an exception of type \<open>'e\<close>, a subclass of \<^verbatim>\<open>Exception\<close>);
  \<^verbatim>\<open>sendmail\<close>, when it returns, returns the recipients that were refused.
\<close>

record 'e SMTP =
  smtp_connect :: "string \<Rightarrow> int option \<Rightarrow> 'e option"
  smtp_sendmail :: "string \<Rightarrow> string list \<Rightarrow> Message \<Rightarrow> 'e + string list"
  smtp_quit :: "'e option"

datatype smtp_call = Connect | Sendmail | Quit

text \<open>\<^verbatim>\<open>s.split(c)\<close>.\<close>

fun split_on :: "char \<Rightarrow> string \<Rightarrow> string list" where
  "split_on c [] = [[]]"
| "split_on c (x # xs) =
     (if x = c then [] # split_on c xs
      else (case split_on c xs of
              [] \<Rightarrow> [[x]]
            | p # ps \<Rightarrow> (x # p) # ps))"

text \<open>
  \<^verbatim>\<open>Emailer.send\<close> returns the exception it raises or the number it returns, and the calls
  made to the SMTP library, in order. Unpacking the split format into two names raises
  \<^verbatim>\<open>ValueError\<close> unless there are exactly two parts. The main type picks the message
  class, which is \<^verbatim>\<open>MIMEText\<close> for every main type. (Logging is left out.)
\<close>

definition build_message :: "Emailer \<Rightarrow> string \<Rightarrow> string \<Rightarrow> Message" where
  "build_message E text sub_fmt =
     \<lparr>subtype = sub_fmt, payload = text,
      msg_headers = [(''Subject'', subject E), (''From'', sender E),
                     (''To'', join '', '' (recipients E))]\<rparr>"

definition Emailer_send ::
  "Emailer \<Rightarrow> 'e SMTP \<Rightarrow> string \<Rightarrow> string \<Rightarrow> (py_error + nat) \<times> smtp_call list" where
  "Emailer_send E net text fmt =
     (case split_on CHR ''/'' fmt of
        [main_fmt, sub_fmt] \<Rightarrow>
          (let msg = build_message E text sub_fmt
           in case smtp_connect net (server E) (port E) of
                Some err \<Rightarrow> (Inr 0, [Connect])
              | None \<Rightarrow>
                  (case smtp_sendmail net (sender E) (recipients E) msg of
                     Inl err \<Rightarrow> (Inr 0, [Connect, Sendmail])
                   | Inr refused \<Rightarrow>
                       (case smtp_quit net of
                          Some err \<Rightarrow> (Inr 0, [Connect, Sendmail, Quit])
                        | None \<Rightarrow> (Inr (length (recipients E)), [Connect, Sendmail, Quit]))))
      | _ \<Rightarrow> (Inl ValueError, []))"

section \<open>JSON formatter\<close>

text \<open>
  A JSON document. \<^verbatim>\<open>json.dumps\<close> writes a document as text and a JSON parser reads the
  same document back; the model keeps the document and leaves its text form out.
\<close>

datatype json =
  JNull | JBool bool | JInt int | JStr string | JArr "json list" | JObj "(string \<times> json) list"

text \<open>The objects that reach \<^verbatim>\<open>json.dumps\<close>: values, lists and dictionaries, which the
  encoder knows, and \<^verbatim>\<open>Header\<close> and \<^verbatim>\<open>Table\<close> instances, which it does not.\<close>

datatype pyobj =
  PVal pyval | PHeader Header | PTable "row Table" | PList "pyobj list"
  | PDict "(string \<times> pyobj) list"

fun json_of_val :: "pyval \<Rightarrow> json" where
  "json_of_val VNone = JNull"
| "json_of_val (VBool b) = JBool b"
| "json_of_val (VInt i) = JInt i"
| "json_of_val (VStr s) = JStr s"

definition json_of_dict :: "(string \<times> pyval) list \<Rightarrow> json" where
  "json_of_dict d = JObj (map (\<lambda>p. (fst p, json_of_val (snd p))) d)"

text \<open>
  \<^verbatim>\<open>json.dumps(obj, cls=E)\<close>. An object the encoder does not know goes to the \<^verbatim>\<open>default\<close>
  method of \<open>E\<close>; \<open>dflt\<close> stands for that method followed by the encoding of the plain data
  it returns, and raises what the method raises.
\<close>

fun dumps :: "(pyobj \<Rightarrow> py_error + json) \<Rightarrow> pyobj \<Rightarrow> py_error + json"
  and dumps_list :: "(pyobj \<Rightarrow> py_error + json) \<Rightarrow> pyobj list \<Rightarrow> py_error + json list"
  and dumps_items :: "(pyobj \<Rightarrow> py_error + json) \<Rightarrow> (string \<times> pyobj) list
                        \<Rightarrow> py_error + (string \<times> json) list" where
  "dumps dflt (PVal v) = Inr (json_of_val v)"
| "dumps dflt (PList xs) =
     (case dumps_list dflt xs of Inl e \<Rightarrow> Inl e | Inr js \<Rightarrow> Inr (JArr js))"
| "dumps dflt (PDict items) =
     (case dumps_items dflt items of Inl e \<Rightarrow> Inl e | Inr js \<Rightarrow> Inr (JObj js))"
| "dumps dflt (PHeader h) = dflt (PHeader h)"
| "dumps dflt (PTable T) = dflt (PTable T)"
| "dumps_list dflt [] = Inr []"
| "dumps_list dflt (x # xs) =
     (case dumps dflt x of
        Inl e \<Rightarrow> Inl e
      | Inr j \<Rightarrow> (case dumps_list dflt xs of Inl e \<Rightarrow> Inl e | Inr js \<Rightarrow> Inr (j # js)))"
| "dumps_items dflt [] = Inr []"
| "dumps_items dflt (kx # items) =
     (case dumps dflt (snd kx) of
        Inl e \<Rightarrow> Inl e
      | Inr j \<Rightarrow>
          (case dumps_items dflt items of
             Inl e \<Rightarrow> Inl e
           | Inr js \<Rightarrow> Inr ((fst kx, j) # js)))"

text \<open>
  Modelled from the spec: the class \<^verbatim>\<open>MongoJSONEncoder\<close> of \<^verbatim>\<open>matgendb/util.py\<close>, which is
  not among the sources. It is the external document encoder, which supplies the encoding
  of the value types of the database driver; like \<^verbatim>\<open>json.JSONEncoder.default\<close> it raises
  \<^verbatim>\<open>TypeError\<close> for an object it does not know, and it knows nothing of the report classes.
\<close>

definition MongoJSONEncoder_default :: "pyobj \<Rightarrow> py_error + json" where
  "MongoJSONEncoder_default obj = Inl TypeError"

text \<open>\<^verbatim>\<open>ReportJSONEncoder.default\<close>.\<close>

fun ReportJSONEncoder_default :: "pyobj \<Rightarrow> py_error + json" where
  "ReportJSONEncoder_default (PHeader h) = Inr (json_of_dict (Header_to_dict h))"
| "ReportJSONEncoder_default (PTable T) =
     (case Table_values T of
        Inl e \<Rightarrow> Inl e
      | Inr ds \<Rightarrow> Inr (JArr (map json_of_dict ds)))"
| "ReportJSONEncoder_default obj = MongoJSONEncoder_default obj"

text \<open>The dictionary \<open>obj\<close> that \<^verbatim>\<open>JSONFormatter.format\<close> builds. The body of a sub-section
  is a table or \<^verbatim>\<open>None\<close>.\<close>

definition cond_obj :: "row ReportSection \<Rightarrow> pyobj" where
  "cond_obj cs =
     PDict [(''title'', PVal (VStr (title (header cs)))),
            (''info'', PHeader (header cs)),
            (''violations'', (case body cs of None \<Rightarrow> PVal VNone | Some T \<Rightarrow> PTable T))]"

definition section_obj :: "row ReportSection \<Rightarrow> pyobj" where
  "section_obj s =
     PDict [(''title'', PVal (VStr (title (header s)))),
            (''info'', PHeader (header s)),
            (''conditions'', PList (map cond_obj (subsections s)))]"

definition report_obj :: "row Report \<Rightarrow> pyobj" where
  "report_obj report =
     PDict [(''title'', PVal (VStr (title (hdr report)))),
            (''info'', PHeader (hdr report)),
            (''sections'', PList (map section_obj (sections report)))]"

text \<open>\<^verbatim>\<open>JSONFormatter.format\<close> passes \<^verbatim>\<open>cls=MongoJSONEncoder\<close>.\<close>

definition JSONFormatter_format :: "row Report \<Rightarrow> py_error + json" where
  "JSONFormatter_format report = dumps MongoJSONEncoder_default (report_obj report)"

text \<open>
  The document that the specification asks for, written from its words: title, info and
  sections; for a section title, info and conditions; for a sub-section title, info and
  violations, the rows as mappings from column name to value.
\<close>

definition spec_cond_doc :: "row ReportSection \<Rightarrow> json" where
  "spec_cond_doc cs =
     JObj [(''title'', JStr (title (header cs))),
           (''info'', json_of_dict (Header_to_dict (header cs))),
           (''violations'', (case body cs of
                               None \<Rightarrow> JNull
                             | Some T \<Rightarrow>
                                 JArr (map (\<lambda>r. json_of_dict (dict_of (zip (colnames T) r)))
                                         (rows T))))]"

definition spec_section_doc :: "row ReportSection \<Rightarrow> json" where
  "spec_section_doc s =
     JObj [(''title'', JStr (title (header s))),
           (''info'', json_of_dict (Header_to_dict (header s))),
           (''conditions'', JArr (map spec_cond_doc (subsections s)))]"

definition spec_report_doc :: "row Report \<Rightarrow> json" where
  "spec_report_doc report =
     JObj [(''title'', JStr (title (hdr report))),
           (''info'', json_of_dict (Header_to_dict (hdr report))),
           (''sections'', JArr (map spec_section_doc (sections report)))]"

text \<open>A report whose sub-sections hold tables built by the constructor and \<^verbatim>\<open>add\<close>.\<close>

definition report_ok :: "row Report \<Rightarrow> bool" where
  "report_ok report =
     list_all (\<lambda>s. list_all (\<lambda>cs. case body cs of None \<Rightarrow> True | Some T \<Rightarrow> table_ok T)
                       (subsections s))
              (sections report)"

text \<open>The report of the specification's end-to-end example.\<close>

definition nightly_check :: "row Report" where
  "nightly_check =
     \<lparr>hdr = \<lparr>title = ''Nightly Check'', kv = []\<rparr>,
      sections =
        [ReportSection \<lparr>title = ''DB Consistency'', kv = [(''host'', VStr ''db1'')]\<rparr> None
           [ReportSection \<lparr>title = ''Orphans'', kv = []\<rparr>
              (Some \<lparr>colnames = [''id'', ''count''],
                     rows = [[VInt 1, VInt 5], [VInt 1, VInt 3], [VInt 2, VInt 1]],
                     width = 2, max_col_widths = [2, 5]\<rparr>) []]]\<rparr>"

section \<open>The formatters over a store of list objects\<close>

text \<open>
  Whether a formatter changes the report depends on which list object an assignment
  reaches. Here the rows of a table are references into a store of list objects (a
  reference is a position in the store), \<^verbatim>\<open>list(row)\<close> allocates a new object at the end of
  the store, and \<^verbatim>\<open>row[i] = v\<close> writes to the object that \<open>row\<close> refers to. The headers, the
  column names and the widths are never assigned to by a formatter and stay plain values.
\<close>

type_synonym ref = nat

type_synonym store = "row list"

text \<open>The report that a report of references denotes in a store.\<close>

definition load_table :: "store \<Rightarrow> ref Table \<Rightarrow> row Table" where
  "load_table s T =
     \<lparr>colnames = colnames T, rows = map (\<lambda>a. s ! a) (rows T), width = width T,
      max_col_widths = max_col_widths T\<rparr>"

fun load_section :: "store \<Rightarrow> ref ReportSection \<Rightarrow> row ReportSection" where
  "load_section s (ReportSection h b subs) =
     ReportSection h (map_option (load_table s) b) (map (load_section s) subs)"

definition load_report :: "store \<Rightarrow> ref Report \<Rightarrow> row Report" where
  "load_report s report = \<lparr>hdr = hdr report, sections = map (load_section s) (sections report)\<rparr>"

text \<open>The references held by a report. In a well-formed store they all point into it.\<close>

fun section_refs :: "ref ReportSection \<Rightarrow> ref list" where
  "section_refs (ReportSection h b subs) =
     (case b of None \<Rightarrow> [] | Some T \<Rightarrow> rows T) @ concat (map section_refs subs)"

definition report_refs :: "ref Report \<Rightarrow> ref list" where
  "report_refs report = concat (map section_refs (sections report))"

definition refs_ok :: "store \<Rightarrow> ref Report \<Rightarrow> bool" where
  "refs_ok s report = list_all (\<lambda>a. a < length s) (report_refs report)"

text \<open>The row loop of the HTML formatter, with the copy and the assignment as store
  operations. The cells emitted for a row are read from the copy within the iteration.\<close>

fun stripe_rows_st ::
  "int \<Rightarrow> pyval \<Rightarrow> nat \<Rightarrow> ref list \<Rightarrow> store \<Rightarrow> (py_error + (nat \<times> row) list) \<times> store" where
  "stripe_rows_st c prev_key i [] s = (Inr [], s)"
| "stripe_rows_st c prev_key i (a # as) s =
     (let b = length s; s1 = s @ [s ! a]
      in case py_pos (length (s1 ! b)) c of
           None \<Rightarrow> (Inl IndexError, s1)
         | Some j \<Rightarrow>
             (let key = s1 ! b ! j
              in if truthy prev_key \<and> py_eq key prev_key
                 then (let s2 = s1[b := (s1 ! b)[j := VStr []]]
                       in case stripe_rows_st c prev_key i as s2 of
                            (Inl e, s3) \<Rightarrow> (Inl e, s3)
                          | (Inr out, s3) \<Rightarrow> (Inr ((i, s2 ! b) # out), s3))
                 else (case stripe_rows_st c key (Suc i) as s1 of
                         (Inl e, s3) \<Rightarrow> (Inl e, s3)
                       | (Inr out, s3) \<Rightarrow> (Inr ((Suc i, s1 ! b) # out), s3))))"

definition html_table_st :: "int \<Rightarrow> ref Table \<Rightarrow> store \<Rightarrow> (py_error + string list) \<times> store" where
  "html_table_st c T s =
     (case stripe_rows_st c VNone 0 (rows T) s of
        (Inl e, s') \<Rightarrow> (Inl e, s')
      | (Inr out, s') \<Rightarrow>
          (Inr ([''<table>'', ''<tr>'']
                @ map (\<lambda>name. ''<th>'' @ name @ ''</th>'') (column_names T)
                @ [''</tr>'']
                @ concat (map tr_lines out)
                @ [''</table>'']), s'))"

fun collect_st ::
  "('a \<Rightarrow> store \<Rightarrow> (py_error + string list) \<times> store) \<Rightarrow> 'a list \<Rightarrow> store
     \<Rightarrow> (py_error + string list) \<times> store" where
  "collect_st f [] s = (Inr [], s)"
| "collect_st f (x # xs) s =
     (case f x s of
        (Inl e, s1) \<Rightarrow> (Inl e, s1)
      | (Inr ls, s1) \<Rightarrow>
          (case collect_st f xs s1 of
             (Inl e, s2) \<Rightarrow> (Inl e, s2)
           | (Inr ms, s2) \<Rightarrow> (Inr (ls @ ms), s2)))"

definition html_cond_st ::
  "int \<Rightarrow> ref ReportSection \<Rightarrow> store \<Rightarrow> (py_error + string list) \<times> store" where
  "html_cond_st c cs s =
     (case body cs of
        None \<Rightarrow> (Inl AttributeError, s)
      | Some T \<Rightarrow>
          (case html_table_st c T s of
             (Inl e, s') \<Rightarrow> (Inl e, s')
           | (Inr ls, s') \<Rightarrow>
               (Inr ([''<h3>'' @ title (header cs) @ ''</h3>'']
                     @ dl_lines ''subsectmeta'' (header cs) @ ls), s')))"

definition html_section_st ::
  "int \<Rightarrow> ref ReportSection \<Rightarrow> store \<Rightarrow> (py_error + string list) \<times> store" where
  "html_section_st c sec s =
     (case collect_st (html_cond_st c) (subsections sec) s of
        (Inl e, s') \<Rightarrow> (Inl e, s')
      | (Inr ls, s') \<Rightarrow>
          (Inr ([''<h2>'' @ title (header sec) @ ''</h2>'']
                @ dl_lines ''sectmeta'' (header sec) @ ls), s'))"

definition HTMLFormatter_format_st ::
  "HTMLFormatter \<Rightarrow> ref Report \<Rightarrow> store \<Rightarrow> (py_error + string) \<times> store" where
  "HTMLFormatter_format_st F report s =
     (case collect_st (html_section_st (idcol F)) (sections report) s of
        (Inl e, s') \<Rightarrow> (Inl e, s')
      | (Inr ls, s') \<Rightarrow>
          (Inr (join (sep F)
                 ([''<!DOCTYPE html>'', ''<html>'',
                   ''<title>'' @ title (hdr report) @ ''</title>'', ''<head>'']
                  @ (if css F \<noteq> [] then [''<style>'', css F, ''</style>''] else [])
                  @ [''</head>'', ''<body>'', ''<h1>'' @ title (hdr report) @ ''</h1>'']
                  @ dl_lines ''rptmeta'' (hdr report)
                  @ ls
                  @ [''</body>'', ''</html>''])), s'))"

text \<open>The Markdown and JSON formatters read the rows and neither copy nor assign: they
  return the store they were given.\<close>

definition MarkdownFormatter_format_st :: "ref Report \<Rightarrow> store \<Rightarrow> (py_error + string) \<times> store" where
  "MarkdownFormatter_format_st report s = (MarkdownFormatter_format (load_report s report), s)"

definition JSONFormatter_format_st :: "ref Report \<Rightarrow> store \<Rightarrow> (py_error + json) \<times> store" where
  "JSONFormatter_format_st report s = (JSONFormatter_format (load_report s report), s)"

section \<open>Adding rows that hold unicode strings\<close>

text \<open>
  The database driver returns text as unicode strings. \<^verbatim>\<open>str(v)\<close> of a unicode string
  encodes it as ASCII and raises \<^verbatim>\<open>UnicodeEncodeError\<close> when a code point is 128 or above.
  A cell is a scalar value or a unicode string, given by its code points.
\<close>

datatype cell = Scalar pyval | Unicode "nat list"

fun cell_str :: "cell \<Rightarrow> py_error + string" where
  "cell_str (Scalar v) = Inr (py_str v)"
| "cell_str (Unicode cs) =
     (if list_all (\<lambda>c. c < 128) cs then Inr (map char_of cs) else Inl UnicodeEncodeError)"

text \<open>
  \<^verbatim>\<open>Table.add\<close> over such rows. In the loop \<^verbatim>\<open>n = len(str(v))\<close> comes first and may raise;
  by then the row has been appended (line 103) and the widths of the columns before it
  have been updated.
\<close>

fun add_loop_u :: "nat \<Rightarrow> cell list \<Rightarrow> nat list \<Rightarrow> py_error option \<times> nat list" where
  "add_loop_u i [] ws = (None, ws)"
| "add_loop_u i (v # vs) ws =
     (case cell_str v of
        Inl e \<Rightarrow> (Some e, ws)
      | Inr s \<Rightarrow>
          (if i < length ws
           then (let n = length s
                 in add_loop_u (Suc i) vs (if ws ! i < n then ws[i := n] else ws))
           else (Some IndexError, ws)))"

definition Table_add_u ::
  "cell list Table \<Rightarrow> cell list \<Rightarrow> py_error option \<times> cell list Table" where
  "Table_add_u T vals =
     (if length vals \<noteq> width T then (Some ValueError, T)
      else (let T1 = T\<lparr>rows := rows T @ [vals]\<rparr>;
                (e, ws) = add_loop_u 0 vals (max_col_widths T1)
            in (e, T1\<lparr>max_col_widths := ws\<rparr>)))"

text \<open>A table of scalar rows, as a table of cells.\<close>

definition scalar_table :: "row Table \<Rightarrow> cell list Table" where
  "scalar_table T =
     \<lparr>colnames = colnames T, rows = map (map Scalar) (rows T), width = width T,
      max_col_widths = max_col_widths T\<rparr>"

section \<open>Properties of tables\<close>

lemma add_loop_length: "length (snd (add_loop i vs ws)) = length ws"
  by (induction i vs ws rule: add_loop.induct) (simp_all add: Let_def)

lemma add_loop_no_error: "i + length vs \<le> length ws \<Longrightarrow> fst (add_loop i vs ws) = None"
  by (induction i vs ws rule: add_loop.induct) (simp_all add: Let_def)

lemma add_loop_nth:
  "i + length vs \<le> length ws \<Longrightarrow> j < length ws \<Longrightarrow>
   snd (add_loop i vs ws) ! j =
     (if i \<le> j \<and> j < i + length vs then max (ws ! j) (length (py_str (vs ! (j - i)))) else ws ! j)"
proof (induction i vs ws rule: add_loop.induct)
  case (1 i ws)
  then show ?case by simp
next
  case (2 i v vs ws)
  let ?n = "length (py_str v)"
  let ?ws = "if ws ! i < ?n then ws[i := ?n] else ws"
  have len: "length ?ws = length ws" by simp
  have i: "i < length ws" using 2(2) by simp
  have step: "snd (add_loop i (v # vs) ws) = snd (add_loop (Suc i) vs ?ws)"
    using i by (simp add: Let_def)
  have IH: "snd (add_loop (Suc i) vs ?ws) ! j =
     (if Suc i \<le> j \<and> j < Suc i + length vs then max (?ws ! j) (length (py_str (vs ! (j - Suc i)))) else ?ws ! j)"
    using 2(1)[OF i refl] 2(2) 2(3) len by simp
  show ?case
  proof (cases "j = i")
    case True
    then show ?thesis using step IH i by (simp add: max_def)
  next
    case False
    then have "?ws ! j = ws ! j" by simp
    moreover have "j > i \<Longrightarrow> (v # vs) ! (j - i) = vs ! (j - Suc i)" by (simp add: nth_Cons' Suc_diff_Suc)
    ultimately show ?thesis using step IH False by (auto)
  qed
qed

lemma Table_add_ok:
  assumes "table_ok T" "length r = width T"
  shows "fst (Table_add T r) = None" "table_ok (snd (Table_add T r))"
    "rows (snd (Table_add T r)) = rows T @ [r]"
    "colnames (snd (Table_add T r)) = colnames T"
    "width (snd (Table_add T r)) = width T"
    "j < width T \<Longrightarrow> max_col_widths (snd (Table_add T r)) ! j = max (max_col_widths T ! j) (length (py_str (r ! j)))"
  using assms add_loop_no_error[of 0 r "max_col_widths T"] add_loop_length[of 0 r "max_col_widths T"]
    add_loop_nth[of 0 r "max_col_widths T" j]
  by (auto simp: Table_add_def table_ok_def Let_def split: prod.splits)


lemma Table_init_ok: "table_ok (Table_init cn)"
  by (simp add: table_ok_def Table_init_def)

text \<open>
  Rows of scalar cells: a row of the arity is added without an exception and the number of
  rows grows by one; any other row raises \<^verbatim>\<open>ValueError\<close> and leaves the table as it was.
\<close>

lemma Table_add_arity:
  assumes "table_ok T"
  shows "(length r = ncol T \<longrightarrow>
            fst (Table_add T r) = None \<and> nrow (snd (Table_add T r)) = nrow T + 1)
       \<and> (length r \<noteq> ncol T \<longrightarrow>
            Table_add T r = (Some ValueError, T) \<and> nrow (snd (Table_add T r)) = nrow T)"
proof (cases "length r = width T")
  case True
  then show ?thesis
    using Table_add_ok(1)[OF assms True] Table_add_ok(3)[OF assms True]
    by (simp add: ncol_def nrow_def)
next
  case False
  then show ?thesis by (simp add: Table_add_def ncol_def)
qed

lemma Table_add_arity_example:
  "table_ok (Table_init [''id'', ''count''])
   \<and> fst (Table_add (Table_init [''id'', ''count'']) [VInt 1, VInt 5]) = None
   \<and> nrow (snd (Table_add (Table_init [''id'', ''count'']) [VInt 1, VInt 5])) = 1
   \<and> Table_add (Table_init [''id'', ''count'']) [VInt 1]
       = (Some ValueError, Table_init [''id'', ''count''])"
  using Table_add_arity[OF Table_init_ok, of "[VInt 1, VInt 5]" "[''id'', ''count'']"]
    Table_add_arity[OF Table_init_ok, of "[VInt 1]" "[''id'', ''count'']"]
    Table_init_ok[of "[''id'', ''count'']"]
  by (simp add: ncol_def nrow_def Table_init_def)

lemma add_all_ok:
  assumes "table_ok T" "list_all (\<lambda>r. length r = width T) rs"
  shows "fst (add_all T rs) = None \<and> table_ok (snd (add_all T rs))
       \<and> rows (snd (add_all T rs)) = rows T @ rs
       \<and> colnames (snd (add_all T rs)) = colnames T
       \<and> width (snd (add_all T rs)) = width T
       \<and> (\<forall>j < width T. max_col_widths (snd (add_all T rs)) ! j
             = Max (insert (max_col_widths T ! j) ((\<lambda>r. length (py_str (r ! j))) ` set rs)))"
  using assms
proof (induction rs arbitrary: T)
  case Nil
  then show ?case by simp
next
  case (Cons r rs)
  have len: "length r = width T" using Cons.prems(2) by simp
  let ?T' = "snd (Table_add T r)"
  have e: "fst (Table_add T r) = None" and ok: "table_ok ?T'"
    and w: "width ?T' = width T" and rw: "rows ?T' = rows T @ [r]"
    and cn: "colnames ?T' = colnames T"
    using Table_add_ok[OF Cons.prems(1) len] by simp_all
  have step: "add_all T (r # rs) = add_all ?T' rs"
    using e by (cases "Table_add T r") simp
  have rest: "list_all (\<lambda>r. length r = width ?T') rs" using Cons.prems(2) w by simp
  note IH = Cons.IH[OF ok rest]
  have mx: "max_col_widths (snd (add_all ?T' rs)) ! j
             = Max (insert (max_col_widths T ! j) ((\<lambda>r. length (py_str (r ! j))) ` set (r # rs)))"
    if j: "j < width T" for j
  proof -
    have "max_col_widths (snd (add_all ?T' rs)) ! j
            = Max (insert (max_col_widths ?T' ! j) ((\<lambda>r. length (py_str (r ! j))) ` set rs))"
      using IH j w by simp
    also have "max_col_widths ?T' ! j = max (max_col_widths T ! j) (length (py_str (r ! j)))"
      using Table_add_ok(6)[OF Cons.prems(1) len j] .
    also have "Max (insert (max (max_col_widths T ! j) (length (py_str (r ! j))))
                  ((\<lambda>r. length (py_str (r ! j))) ` set rs))
             = Max (insert (max_col_widths T ! j) ((\<lambda>r. length (py_str (r ! j))) ` set (r # rs)))"
      by (cases "rs = []") (simp_all add: max.assoc max.commute max.left_commute)
    finally show ?thesis .
  qed
  show ?case using IH step w rw cn mx by simp
qed

text \<open>
  Claim C3. After the constructor and any sequence of successful \<^verbatim>\<open>add\<close> calls, the width
  kept for column \<open>i\<close> is the maximum of the length of the column's name and of the lengths
  of \<^verbatim>\<open>str(v)\<close> over the values \<open>v\<close> added in that column; in particular it is at least
  the length of \<^verbatim>\<open>str(v)\<close> for each of them.
\<close>

theorem column_widths_max:
  assumes "list_all (\<lambda>r. length r = length cn) rs" and "i < length cn"
  shows "fst (add_all (Table_init cn) rs) = None
       \<and> column_widths (snd (add_all (Table_init cn) rs)) ! i
           = Max (insert (length (cn ! i)) ((\<lambda>r. length (py_str (r ! i))) ` set rs))
       \<and> list_all (\<lambda>r. length (py_str (r ! i)) \<le> column_widths (snd (add_all (Table_init cn) rs)) ! i) rs"
proof -
  have w: "width (Table_init cn :: row Table) = length cn" by (simp add: Table_init_def)
  have a: "list_all (\<lambda>r. length r = width (Table_init cn :: row Table)) rs"
    using assms(1) w by simp
  note A = add_all_ok[OF Table_init_ok a]
  have eq: "column_widths (snd (add_all (Table_init cn) rs)) ! i
           = Max (insert (length (cn ! i)) ((\<lambda>r. length (py_str (r ! i))) ` set rs))"
    using A assms(2) w by (simp add: column_widths_def Table_init_def)
  have "length (py_str (r ! i)) \<le> Max (insert (length (cn ! i)) ((\<lambda>r. length (py_str (r ! i))) ` set rs))"
    if "r \<in> set rs" for r
    using that by (intro Max_ge) auto
  then show ?thesis using A eq by (simp add: list_all_iff)
qed

theorem column_widths_max_witness:
  "list_all (\<lambda>r. length r = length [''id'', ''count'']) [[VInt 1, VStr ''hello!''], [VInt 100, VInt 3]]
   \<and> (1::nat) < length [''id'', ''count'']
   \<and> fst (add_all (Table_init [''id'', ''count'']) [[VInt 1, VStr ''hello!''], [VInt 100, VInt 3]]) = None
   \<and> column_widths (snd (add_all (Table_init [''id'', ''count''])
         [[VInt 1, VStr ''hello!''], [VInt 100, VInt 3]])) ! 1 = 6"
  using column_widths_max[of "[''id'', ''count'']" "[[VInt 1, VStr ''hello!''], [VInt 100, VInt 3]]" 1]
  by (simp add: str_int_def str_nat.simps)

lemma py_eq_VStr [simp]: "py_eq (VStr a) (VStr b) = (a = b)"
  by (simp add: py_eq_def)

lemma list_index_first:
  "c < length cn \<Longrightarrow> cn ! c = name \<Longrightarrow> (\<forall>j<c. cn ! j \<noteq> name) \<Longrightarrow>
   list_index cn (VStr name) = Some c"
proof (induction cn arbitrary: c)
  case Nil
  then show ?case by simp
next
  case (Cons a cn)
  show ?case
  proof (cases c)
    case 0
    then show ?thesis using Cons.prems by simp
  next
    case (Suc d)
    have "a \<noteq> name" using Cons.prems(3) Suc by auto
    moreover have "list_index cn (VStr name) = Some d"
      using Cons.prems Suc by (intro Cons.IH) auto
    ultimately show ?thesis using Suc by simp
  qed
qed

lemma sort_rows_ok:
  "list_all (\<lambda>r. length r = w) rs \<Longrightarrow> c < w \<Longrightarrow>
   sort_rows c rs = Inr (sort_key (\<lambda>r. py_key (r ! c)) rs)"
  by (simp add: sort_rows_def list_all_iff)

lemma sortby_index:
  "table_ok T \<Longrightarrow> c < width T \<Longrightarrow>
   Table_sortby T (VInt (int c)) = (None, T\<lparr>rows := sort_key (\<lambda>r. py_key (r ! c)) (rows T)\<rparr>)"
  using sort_rows_ok[of "width T" "rows T" c]
  by (auto simp: Table_sortby_def py_lt_def py_ge_def table_ok_def)

lemma sortby_name:
  "table_ok T \<Longrightarrow> c < width T \<Longrightarrow> colnames T ! c = name \<Longrightarrow> (\<forall>j<c. colnames T ! j \<noteq> name) \<Longrightarrow>
   Table_sortby T (VStr name) = (None, T\<lparr>rows := sort_key (\<lambda>r. py_key (r ! c)) (rows T)\<rparr>)"
  using list_index_first[of c "colnames T" name] sort_rows_ok[of "width T" "rows T" c]
  by (auto simp: Table_sortby_def table_ok_def)

lemma Table_sortby_cases:
  "snd (Table_sortby T sel) = T
   \<or> (\<exists>c. snd (Table_sortby T sel) = T\<lparr>rows := sort_key (\<lambda>r. py_key (r ! c)) (rows T)\<rparr>)"
  by (auto simp: Table_sortby_def sort_rows_def Let_def
           split: option.split sum.split if_splits prod.split)

lemma Table_sortby_ok: "table_ok T \<Longrightarrow> table_ok (snd (Table_sortby T sel))"
  using Table_sortby_cases[of T sel]
  by (auto simp: table_ok_def list_all_iff)

text \<open>
  Claim C4. For a table built by the constructor and \<^verbatim>\<open>add\<close> and a valid column selector,
  \<^verbatim>\<open>sortby\<close> raises nothing and leaves a permutation of the rows that is non-decreasing in
  the chosen column and keeps rows with equal entries there in their former order; sorting
  by a column name gives the same table as sorting by the 0-based index of the column that
  the name denotes (the first column bearing it).
\<close>

theorem Table_sortby_stable_sorted:
  assumes "table_ok T" and "c < width T"
    and "colnames T ! c = name" and "\<forall>j<c. colnames T ! j \<noteq> name"
  shows "Table_sortby T (VStr name) = Table_sortby T (VInt (int c))
       \<and> fst (Table_sortby T (VInt (int c))) = None
       \<and> mset (rows (snd (Table_sortby T (VInt (int c))))) = mset (rows T)
       \<and> sorted (map (\<lambda>r. py_key (r ! c)) (rows (snd (Table_sortby T (VInt (int c))))))
       \<and> (\<forall>k. filter (\<lambda>r. py_key (r ! c) = k) (rows (snd (Table_sortby T (VInt (int c)))))
              = filter (\<lambda>r. py_key (r ! c) = k) (rows T))"
  using sortby_index[OF assms(1,2)] sortby_name[OF assms]
  by (simp add: sort_key_stable)


theorem Table_sortby_stable_sorted_witness:
  "table_ok (snd (add_all (Table_init [''id'', ''count'']) [[VInt 2, VInt 1], [VInt 1, VInt 5], [VInt 1, VInt 3]]))
   \<and> Table_sortby (snd (add_all (Table_init [''id'', ''count''])
          [[VInt 2, VInt 1], [VInt 1, VInt 5], [VInt 1, VInt 3]])) (VStr ''id'')
     = Table_sortby (snd (add_all (Table_init [''id'', ''count''])
          [[VInt 2, VInt 1], [VInt 1, VInt 5], [VInt 1, VInt 3]])) (VInt 0)
   \<and> rows (snd (Table_sortby (snd (add_all (Table_init [''id'', ''count''])
          [[VInt 2, VInt 1], [VInt 1, VInt 5], [VInt 1, VInt 3]])) (VInt 0)))
     = [[VInt 1, VInt 5], [VInt 1, VInt 3], [VInt 2, VInt 1]]"
proof -
  let ?T = "snd (add_all (Table_init [''id'', ''count''])
          [[VInt 2, VInt 1], [VInt 1, VInt 5], [VInt 1, VInt 3]])"
  have ok: "table_ok ?T"
    by (simp add: table_ok_def Table_add_def Table_init_def str_int_def str_nat.simps)
  have c: "0 < width ?T"
    by (simp add: Table_add_def Table_init_def str_int_def str_nat.simps)
  have n: "colnames ?T ! 0 = ''id''"
    by (simp add: Table_add_def Table_init_def str_int_def str_nat.simps)
  have f: "\<forall>j<0::nat. colnames ?T ! j \<noteq> ''id''" by simp
  have r: "rows (snd (Table_sortby ?T (VInt 0))) = [[VInt 1, VInt 5], [VInt 1, VInt 3], [VInt 2, VInt 1]]"
    by (simp add: Table_sortby_def py_lt_def py_ge_def sort_rows_def
        Table_add_def Table_init_def str_int_def str_nat.simps)
  show ?thesis using Table_sortby_stable_sorted[OF ok c n f] ok r by simp
qed

section \<open>Properties of the HTML formatter\<close>

lemma truthy_py_eq: "py_eq a b \<Longrightarrow> truthy a = truthy b"
  by (cases a; cases b) (auto simp: py_eq_def split: if_splits)

lemma py_pos_less: "py_pos n c = Some j \<Longrightarrow> j < n"
  by (auto simp: py_pos_def split: if_splits)

lemma str_nat_nonempty: "str_nat n \<noteq> []"
  by (subst str_nat.simps) simp

lemma truthy_str_nonempty: "truthy v \<Longrightarrow> py_str v \<noteq> []"
  by (cases v) (simp_all add: str_int_def str_nat_nonempty)

text \<open>
  Claim C5. For a sub-section table whose id column holds \<open>A, A, B, B, B, C\<close> in this order
  (values that are truthy, which is how the row loop tests for a value, and neighbouring
  runs different), the HTML formatter emits three stripes: the stripe counter is
  1, 1, 2, 2, 2, 3 and the rows are emitted as \<^verbatim>\<open><tr class="odd">\<close> twice,
  \<^verbatim>\<open><tr class="even">\<close> three times and \<^verbatim>\<open><tr class="odd">\<close> once. The id cell is emitted as
  \<^verbatim>\<open><td>\<close>, the non-empty string of the id value, \<^verbatim>\<open></td>\<close> in rows 1, 3 and 6 and as
  \<^verbatim>\<open><td></td>\<close> in rows 2, 4 and 5; all other cells are emitted as they are. These lines
  are the table part of the document that \<^verbatim>\<open>format\<close> returns.
\<close>

theorem html_stripes_AABBBC:
  assumes "rows T = [r1, r2, r3, r4, r5, r6]"
    and "list_all (\<lambda>r. length r = width T) (rows T)"
    and "py_pos (width T) c = Some j"
    and "map (\<lambda>r. r ! j) (rows T) = [A, A, B, B, B, C]"
    and "truthy A" and "truthy B" and "truthy C"
    and "\<not> py_eq A B" and "\<not> py_eq B C"
  shows "let td = (\<lambda>v. ''<td>'' @ py_str v @ ''</td>'');
             shown = [r1, r2[j := VStr []], r3, r4[j := VStr []], r5[j := VStr []], r6];
             trs = [''<tr class=\"odd\">''] @ map td r1 @ [''</tr>'']
                 @ [''<tr class=\"odd\">''] @ map td (r2[j := VStr []]) @ [''</tr>'']
                 @ [''<tr class=\"even\">''] @ map td r3 @ [''</tr>'']
                 @ [''<tr class=\"even\">''] @ map td (r4[j := VStr []]) @ [''</tr>'']
                 @ [''<tr class=\"even\">''] @ map td (r5[j := VStr []]) @ [''</tr>'']
                 @ [''<tr class=\"odd\">''] @ map td r6 @ [''</tr>'']
         in stripe_rows c VNone 0 (rows T) = Inr (zip [1, 1, 2, 2, 2, 3] shown)
          \<and> html_table c T
              = Inr ([''<table>'', ''<tr>'']
                     @ map (\<lambda>name. ''<th>'' @ name @ ''</th>'') (column_names T)
                     @ [''</tr>''] @ trs @ [''</table>''])
          \<and> map (\<lambda>r. map td r ! j) shown
              = [''<td>'' @ py_str A @ ''</td>'', ''<td></td>'',
                 ''<td>'' @ py_str B @ ''</td>'', ''<td></td>'', ''<td></td>'',
                 ''<td>'' @ py_str C @ ''</td>'']
          \<and> py_str A \<noteq> [] \<and> py_str B \<noteq> [] \<and> py_str C \<noteq> []
          \<and> (\<exists>pre. HTMLFormatter_lines (F\<lparr>idcol := c\<rparr>)
                   \<lparr>hdr = h, sections = [ReportSection sh sb [ReportSection ch (Some T) subs]]\<rparr>
                 = Inr (pre @ trs @ [''</table>'', ''</body>'', ''</html>''])
               \<and> HTMLFormatter_format (F\<lparr>idcol := c\<rparr>)
                   \<lparr>hdr = h, sections = [ReportSection sh sb [ReportSection ch (Some T) subs]]\<rparr>
                 = Inr (join (sep F) (pre @ trs @ [''</table>'', ''</body>'', ''</html>''])))"
proof -
  let ?td = "\<lambda>v. ''<td>'' @ py_str v @ ''</td>''"
  let ?shown = "[r1, r2[j := VStr []], r3, r4[j := VStr []], r5[j := VStr []], r6]"
  let ?trs = "[''<tr class=\"odd\">''] @ map ?td r1 @ [''</tr>'']
                 @ [''<tr class=\"odd\">''] @ map ?td (r2[j := VStr []]) @ [''</tr>'']
                 @ [''<tr class=\"even\">''] @ map ?td r3 @ [''</tr>'']
                 @ [''<tr class=\"even\">''] @ map ?td (r4[j := VStr []]) @ [''</tr>'']
                 @ [''<tr class=\"even\">''] @ map ?td (r5[j := VStr []]) @ [''</tr>'']
                 @ [''<tr class=\"odd\">''] @ map ?td r6 @ [''</tr>'']"
  have len: "length r1 = width T" "length r2 = width T" "length r3 = width T"
    "length r4 = width T" "length r5 = width T" "length r6 = width T"
    using assms(1,2) by simp_all
  have j: "j < width T" using py_pos_less[OF assms(3)] .
  have ids: "r1 ! j = A" "r2 ! j = A" "r3 ! j = B" "r4 ! j = B" "r5 ! j = B" "r6 ! j = C"
    using assms(1,4) by simp_all
  have eqs: "py_eq A A" "py_eq B B" "\<not> py_eq C B" "\<not> py_eq B A"
    using assms(8,9) by (simp_all add: py_eq_def)
  have s: "stripe_rows c VNone 0 [r1, r2, r3, r4, r5, r6] = Inr (zip [1, 1, 2, 2, 2, 3] ?shown)"
    using len ids eqs assms(3,5,6,7) by (simp add: Let_def)
  have s': "stripe_rows c VNone 0 (rows T) = Inr (zip [1, 1, 2, 2, 2, 3] ?shown)"
    using s assms(1) by simp
  have cls: "rclass (Suc 0) = ''odd''" "rclass 2 = ''even''" "rclass 3 = ''odd''"
    by (simp_all add: rclass_def)
  have t: "html_table c T
              = Inr ([''<table>'', ''<tr>'']
                     @ map (\<lambda>name. ''<th>'' @ name @ ''</th>'') (column_names T)
                     @ [''</tr>''] @ ?trs @ [''</table>''])"
    unfolding html_table_def s' by (simp add: tr_lines_def cls)
  have cells: "map (\<lambda>r. map ?td r ! j) ?shown
              = [''<td>'' @ py_str A @ ''</td>'', ''<td></td>'',
                 ''<td>'' @ py_str B @ ''</td>'', ''<td></td>'', ''<td></td>'',
                 ''<td>'' @ py_str C @ ''</td>'']"
    using len j ids by simp
  have ne: "py_str A \<noteq> []" "py_str B \<noteq> []" "py_str C \<noteq> []"
    using assms(5,6,7) by (simp_all add: truthy_str_nonempty)
  let ?pre = "[''<!DOCTYPE html>'', ''<html>'', ''<title>'' @ title h @ ''</title>'', ''<head>'']
               @ (if css F \<noteq> [] then [''<style>'', css F, ''</style>''] else [])
               @ [''</head>'', ''<body>'', ''<h1>'' @ title h @ ''</h1>'']
               @ dl_lines ''rptmeta'' h
               @ [''<h2>'' @ title sh @ ''</h2>''] @ dl_lines ''sectmeta'' sh
               @ [''<h3>'' @ title ch @ ''</h3>''] @ dl_lines ''subsectmeta'' ch
               @ [''<table>'', ''<tr>'']
               @ map (\<lambda>name. ''<th>'' @ name @ ''</th>'') (column_names T)
               @ [''</tr>'']"
  have L: "HTMLFormatter_lines (F\<lparr>idcol := c\<rparr>)
            \<lparr>hdr = h, sections = [ReportSection sh sb [ReportSection ch (Some T) subs]]\<rparr>
      = Inr (?pre @ ?trs @ [''</table>'', ''</body>'', ''</html>''])"
    unfolding HTMLFormatter_lines_def html_section_def html_cond_def
    by (simp add: t)
  have D: "HTMLFormatter_format (F\<lparr>idcol := c\<rparr>)
            \<lparr>hdr = h, sections = [ReportSection sh sb [ReportSection ch (Some T) subs]]\<rparr>
      = Inr (join (sep F) (?pre @ ?trs @ [''</table>'', ''</body>'', ''</html>'']))"
    unfolding HTMLFormatter_format_def L by simp
  have f: "\<exists>pre. HTMLFormatter_lines (F\<lparr>idcol := c\<rparr>)
                   \<lparr>hdr = h, sections = [ReportSection sh sb [ReportSection ch (Some T) subs]]\<rparr>
                 = Inr (pre @ ?trs @ [''</table>'', ''</body>'', ''</html>''])
               \<and> HTMLFormatter_format (F\<lparr>idcol := c\<rparr>)
                   \<lparr>hdr = h, sections = [ReportSection sh sb [ReportSection ch (Some T) subs]]\<rparr>
                 = Inr (join (sep F) (pre @ ?trs @ [''</table>'', ''</body>'', ''</html>'']))"
    using L D by blast
  show ?thesis unfolding Let_def by (intro conjI s' t cells ne f)
qed

lemma str_digits:
  "str_int 1 = ''1''" "str_int 2 = ''2''" "str_int 3 = ''3''"
  "str_int 4 = ''4''" "str_int 5 = ''5''" "str_int 6 = ''6''"
  by code_simp+

theorem html_stripes_AABBBC_witness:
  "py_pos 2 0 = Some 0
   \<and> truthy (VStr ''A'') \<and> truthy (VStr ''B'') \<and> truthy (VStr ''C'')
   \<and> \<not> py_eq (VStr ''A'') (VStr ''B'') \<and> \<not> py_eq (VStr ''B'') (VStr ''C'')
   \<and> html_table 0
        \<lparr>colnames = [''id'', ''n''],
         rows = [[VStr ''A'', VInt 1], [VStr ''A'', VInt 2], [VStr ''B'', VInt 3],
                 [VStr ''B'', VInt 4], [VStr ''B'', VInt 5], [VStr ''C'', VInt 6]],
         width = 2, max_col_widths = [2, 1]\<rparr>
     = Inr [''<table>'', ''<tr>'', ''<th>id</th>'', ''<th>n</th>'', ''</tr>'',
            ''<tr class=\"odd\">'', ''<td>A</td>'', ''<td>1</td>'', ''</tr>'',
            ''<tr class=\"odd\">'', ''<td></td>'', ''<td>2</td>'', ''</tr>'',
            ''<tr class=\"even\">'', ''<td>B</td>'', ''<td>3</td>'', ''</tr>'',
            ''<tr class=\"even\">'', ''<td></td>'', ''<td>4</td>'', ''</tr>'',
            ''<tr class=\"even\">'', ''<td></td>'', ''<td>5</td>'', ''</tr>'',
            ''<tr class=\"odd\">'', ''<td>C</td>'', ''<td>6</td>'', ''</tr>'',
            ''</table>'']"
proof -
  let ?T = "\<lparr>colnames = [''id'', ''n''],
             rows = [[VStr ''A'', VInt 1], [VStr ''A'', VInt 2], [VStr ''B'', VInt 3],
                     [VStr ''B'', VInt 4], [VStr ''B'', VInt 5], [VStr ''C'', VInt 6]],
             width = 2, max_col_widths = [2, 1]\<rparr>"
  have h1: "rows ?T = [[VStr ''A'', VInt 1], [VStr ''A'', VInt 2], [VStr ''B'', VInt 3],
                     [VStr ''B'', VInt 4], [VStr ''B'', VInt 5], [VStr ''C'', VInt 6]]"
    by simp
  have h2: "list_all (\<lambda>r. length r = width ?T) (rows ?T)" by simp
  have h3: "py_pos (width ?T) 0 = Some 0" by (simp add: py_pos_def)
  have h4: "map (\<lambda>r. r ! 0) (rows ?T) = [VStr ''A'', VStr ''A'', VStr ''B'', VStr ''B'', VStr ''B'', VStr ''C'']"
    by simp
  have h5: "truthy (VStr ''A'')" "truthy (VStr ''B'')" "truthy (VStr ''C'')" by simp_all
  have h6: "\<not> py_eq (VStr ''A'') (VStr ''B'')" "\<not> py_eq (VStr ''B'') (VStr ''C'')"
    by (simp_all add: py_eq_def)
  show ?thesis
    using html_stripes_AABBBC[OF h1 h2 h3 h4 h5 h6] h3 h5 h6
    by (simp add: Let_def column_names_def str_digits)
qed

lemma stripe_rows_falsy:
  "list_all (\<lambda>x. length x = n \<and> \<not> truthy (x ! j)) rs \<Longrightarrow> py_pos n c = Some j \<Longrightarrow>
   stripe_rows c prev i rs = Inr (enumerate (Suc i) rs)"
proof (induction rs arbitrary: prev i)
  case Nil
  then show ?case by simp
next
  case (Cons r rs)
  have r: "length r = n" "\<not> truthy (r ! j)" using Cons.prems(1) by simp_all
  have rest: "list_all (\<lambda>x. length x = n \<and> \<not> truthy (x ! j)) rs" using Cons.prems(1) by simp
  have no: "\<not> (truthy prev \<and> py_eq (r ! j) prev)" using r(2) truthy_py_eq by blast
  have IH: "stripe_rows c (r ! j) (Suc i) rs = Inr (enumerate (Suc (Suc i)) rs)"
    using Cons.IH[OF rest Cons.prems(2)] .
  show ?case using r(1) Cons.prems(2) no IH by (auto simp: Let_def)
qed

text \<open>
  Claim C9. In the row loop a row is blanked, and the stripe continued, exactly when the loop's
  \<open>prev_key\<close> (the id value displayed last) is truthy and equal to the row's id value. So a
  run whose first row has a falsy id value (0, the empty string, \<^verbatim>\<open>None\<close>, \<^verbatim>\<open>False\<close>) is
  never collapsed: every row of the run is displayed unchanged and begins a new stripe.
\<close>

theorem html_falsy_ids_not_collapsed:
  assumes "list_all (\<lambda>x. length x = n) (r # rs)" and "py_pos n c = Some j"
  shows "stripe_rows c prev i [r]
           = Inr [if truthy prev \<and> py_eq (r ! j) prev then (i, r[j := VStr []]) else (Suc i, r)]
       \<and> (\<not> truthy (r ! j) \<and> list_all (\<lambda>x. py_eq (x ! j) (r ! j)) rs \<longrightarrow>
            stripe_rows c prev i (r # rs) = Inr (enumerate (Suc i) (r # rs)))"
proof -
  have len: "length r = n" using assms(1) by simp
  have a: "stripe_rows c prev i [r]
           = Inr [if truthy prev \<and> py_eq (r ! j) prev then (i, r[j := VStr []]) else (Suc i, r)]"
    using len assms(2) by (simp add: Let_def)
  have b: "stripe_rows c prev i (r # rs) = Inr (enumerate (Suc i) (r # rs))"
    if f: "\<not> truthy (r ! j)" and e: "list_all (\<lambda>x. py_eq (x ! j) (r ! j)) rs"
  proof -
    have "list_all (\<lambda>x. length x = n \<and> \<not> truthy (x ! j)) (r # rs)"
      using assms(1) f e truthy_py_eq by (auto simp: list_all_iff)
    then show ?thesis using stripe_rows_falsy[OF _ assms(2)] by blast
  qed
  show ?thesis using a b by blast
qed

theorem html_falsy_ids_not_collapsed_witness:
  "list_all (\<lambda>x. length x = 2) [[VInt 0, VInt 5], [VInt 0, VInt 3], [VBool False, VInt 1]]
   \<and> py_pos 2 0 = Some 0
   \<and> \<not> truthy ([VInt 0, VInt 5] ! 0)
   \<and> list_all (\<lambda>x. py_eq (x ! 0) ([VInt 0, VInt 5] ! 0)) [[VInt 0, VInt 3], [VBool False, VInt 1]]
   \<and> stripe_rows 0 VNone 0 [[VInt 0, VInt 5], [VInt 0, VInt 3], [VBool False, VInt 1]]
     = Inr [(1, [VInt 0, VInt 5]), (2, [VInt 0, VInt 3]), (3, [VBool False, VInt 1])]"
proof -
  have h1: "list_all (\<lambda>x. length x = 2) ([VInt 0, VInt 5] # [[VInt 0, VInt 3], [VBool False, VInt 1]])"
    by simp
  have h2: "py_pos 2 0 = Some 0" by (simp add: py_pos_def)
  have h3: "\<not> truthy ([VInt 0, VInt 5] ! 0)" by simp
  have h4: "list_all (\<lambda>x. py_eq (x ! 0) ([VInt 0, VInt 5] ! 0)) [[VInt 0, VInt 3], [VBool False, VInt 1]]"
    by (simp add: py_eq_def)
  show ?thesis
    using html_falsy_ids_not_collapsed[OF h1 h2, of VNone 0] h1 h2 h3 h4
    by (simp add: enumerate_eq_zip upt_rec)
qed

section \<open>Properties of the Markdown formatter\<close>

lemma format_s_length: "n \<le> length (format_s n s)"
  by (simp add: format_s_def)

lemma fixed_width_segments:
  assumes "length vals = length ws"
  shows "\<exists>segs. fixed_width vals ws = concat segs \<and> length segs = length ws
           \<and> (\<forall>i<length ws. ws ! i + 1 \<le> length (segs ! i)
                  \<and> (\<exists>p. segs ! i = py_str (vals ! i) @ replicate p CHR '' ''))"
proof -
  let ?segs = "map (\<lambda>p. format_s (fst p + 1) (py_str (snd p))) (zip ws vals)"
  have l: "length ?segs = length ws" using assms by simp
  have n: "?segs ! i = format_s (ws ! i + 1) (py_str (vals ! i))" if "i < length ws" for i
    using that assms by simp
  have "ws ! i + 1 \<le> length (?segs ! i)
        \<and> (\<exists>p. ?segs ! i = py_str (vals ! i) @ replicate p CHR '' '')" if "i < length ws" for i
    unfolding n[OF that] using format_s_length[of "ws ! i + 1" "py_str (vals ! i)"]
    by (auto simp: format_s_def)
  then show ?thesis using l unfolding fixed_width_def by blast
qed

text \<open>
  Claim C6. For a table built by the constructor and \<^verbatim>\<open>add\<close>, the line that the Markdown
  formatter emits for a row is the indentation followed by one segment per column; the
  segment of column \<open>i\<close> is \<^verbatim>\<open>str\<close> of the row's value there followed by spaces only
  (left-aligned), and it is at least \<open>column_widths[i] + 1\<close> characters long. The table lines
  end the document lines of a report with that one sub-section.
\<close>

theorem md_data_line_segments:
  assumes "table_ok T" and "k < nrow T"
  shows "(\<exists>segs. md_table T ! Suc k = ''    '' @ concat segs \<and> length segs = ncol T
            \<and> (\<forall>i<ncol T. column_widths T ! i + 1 \<le> length (segs ! i)
                   \<and> (\<exists>p. segs ! i = py_str (rows T ! k ! i) @ replicate p CHR '' '')))
       \<and> (\<exists>pre. MarkdownFormatter_lines
                   \<lparr>hdr = h, sections = [ReportSection sh sb [ReportSection ch (Some T) subs]]\<rparr>
                 = Inr (pre @ md_table T))"
proof -
  have k: "k < length (rows T)" using assms(2) by (simp add: nrow_def)
  have len: "length (rows T ! k) = length (column_widths T)"
    using assms(1) k by (simp add: table_ok_def column_widths_def list_all_length)
  have w: "length (column_widths T) = ncol T"
    using assms(1) by (simp add: table_ok_def column_widths_def ncol_def)
  have line: "md_table T ! Suc k = ''    '' @ fixed_width (rows T ! k) (column_widths T)"
    using k by (simp add: md_table_def)
  from fixed_width_segments[OF len] obtain segs where
    segs: "fixed_width (rows T ! k) (column_widths T) = concat segs"
      "length segs = length (column_widths T)"
      "\<forall>i<length (column_widths T). column_widths T ! i + 1 \<le> length (segs ! i)
          \<and> (\<exists>p. segs ! i = py_str (rows T ! k ! i) @ replicate p CHR '' '')"
    by blast
  have a: "\<exists>segs. md_table T ! Suc k = ''    '' @ concat segs \<and> length segs = ncol T
            \<and> (\<forall>i<ncol T. column_widths T ! i + 1 \<le> length (segs ! i)
                   \<and> (\<exists>p. segs ! i = py_str (rows T ! k ! i) @ replicate p CHR '' ''))"
    using segs line w by auto
  have "MarkdownFormatter_lines
          \<lparr>hdr = h, sections = [ReportSection sh sb [ReportSection ch (Some T) subs]]\<rparr>
        = Inr (([''# '' @ title h @ '' #'' @ [CHR 0x0A], ''Info: '' @ mapdump (Header_to_dict h),
                 [CHR 0x0A] @ ''## '' @ title sh @ '' ##'' @ [CHR 0x0A],
                 ''Info: '' @ mapdump (Header_to_dict sh),
                 [CHR 0x0A] @ ''### '' @ title ch @ '' ###'' @ [CHR 0x0A],
                 ''Info: '' @ mapdump (Header_to_dict ch),
                 [CHR 0x0A] @ ''Violations:'' @ [CHR 0x0A]]) @ md_table T)"
    by (simp add: MarkdownFormatter_lines_def md_section_def md_cond_def)
  then have b: "\<exists>pre. MarkdownFormatter_lines
                   \<lparr>hdr = h, sections = [ReportSection sh sb [ReportSection ch (Some T) subs]]\<rparr>
                 = Inr (pre @ md_table T)"
    by blast
  show ?thesis by (intro conjI a b)
qed

theorem md_data_line_segments_witness:
  "table_ok \<lparr>colnames = [''id'', ''n''], rows = [[VInt 1, VStr ''abc'']], width = 2,
             max_col_widths = [2, 3]\<rparr>
   \<and> (0::nat) < nrow \<lparr>colnames = [''id'', ''n''], rows = [[VInt 1, VStr ''abc'']], width = 2,
             max_col_widths = [2, 3]\<rparr>
   \<and> (\<exists>segs. md_table \<lparr>colnames = [''id'', ''n''], rows = [[VInt 1, VStr ''abc'']], width = 2,
             max_col_widths = [2, 3]\<rparr> ! Suc 0 = ''    '' @ concat segs \<and> length segs = 2
         \<and> (\<forall>i<2. [2, 3] ! i + 1 \<le> length (segs ! i)))"
proof -
  let ?T = "\<lparr>colnames = [''id'', ''n''], rows = [[VInt 1, VStr ''abc'']], width = 2,
             max_col_widths = [2::nat, 3]\<rparr>"
  have ok: "table_ok ?T" by (simp add: table_ok_def)
  have k: "0 < nrow ?T" by (simp add: nrow_def)
  have nc: "ncol ?T = 2" by (simp add: ncol_def)
  have cw: "column_widths ?T = [2, 3]" by (simp add: column_widths_def)
  from md_data_line_segments[OF ok k] obtain segs where
    "md_table ?T ! Suc 0 = ''    '' @ concat segs" "length segs = ncol ?T"
    "\<forall>i<ncol ?T. column_widths ?T ! i + 1 \<le> length (segs ! i)"
    by blast
  then show ?thesis using ok k unfolding nc cw by blast
qed

section \<open>Properties of the emailer\<close>

lemma split_on_length: "length (split_on c s) = count_list s c + 1"
  by (induction s) (auto split: list.splits)

lemma length_two: "length xs = 2 \<Longrightarrow> \<exists>a b. xs = [a, b]"
  by (cases xs; cases "tl xs") auto

lemma send_two_parts:
  "split_on CHR ''/'' fmt = [main_fmt, sub_fmt] \<Longrightarrow>
   Emailer_send E net text fmt =
     (case smtp_connect net (server E) (port E) of
        Some err \<Rightarrow> (Inr 0, [Connect])
      | None \<Rightarrow>
          (case smtp_sendmail net (sender E) (recipients E) (build_message E text sub_fmt) of
             Inl err \<Rightarrow> (Inr 0, [Connect, Sendmail])
           | Inr refused \<Rightarrow>
               (case smtp_quit net of
                  Some err \<Rightarrow> (Inr 0, [Connect, Sendmail, Quit])
                | None \<Rightarrow> (Inr (length (recipients E)), [Connect, Sendmail, Quit]))))"
  by (simp add: Emailer_send_def)

lemma send_other_parts:
  "length (split_on CHR ''/'' fmt) \<noteq> 2 \<Longrightarrow> Emailer_send E net text fmt = (Inl ValueError, [])"
  by (auto simp: Emailer_send_def split: list.split)

text \<open>
  Claim C7. For a format of the form \<open>mainType/subType\<close>, \<^verbatim>\<open>send\<close> raises nothing: it
  returns 0 when connecting, sending or quitting raises, and the number of configured
  recipients when all three return, whichever recipients \<^verbatim>\<open>sendmail\<close> reports as refused.
\<close>

theorem send_counts_recipients_or_zero:
  assumes "split_on CHR ''/'' fmt = [main_fmt, sub_fmt]"
  shows "fst (Emailer_send E net text fmt)
         = Inr (if smtp_connect net (server E) (port E) = None
                   \<and> isl (smtp_sendmail net (sender E) (recipients E)
                             (build_message E text sub_fmt)) = False
                   \<and> smtp_quit net = None
                then length (recipients E) else 0)"
  unfolding send_two_parts[OF assms]
  by (cases "smtp_connect net (server E) (port E)";
      cases "smtp_sendmail net (sender E) (recipients E) (build_message E text sub_fmt)";
      cases "smtp_quit net") simp_all

theorem send_counts_recipients_or_zero_witness:
  "split_on CHR ''/'' ''text/html'' = [''text'', ''html'']
   \<and> fst (Emailer_send
            \<lparr>sender = ''me@localhost'', recipients = [''a@x'', ''b@x''], subject = ''Report'',
             server = ''localhost'', port = None\<rparr>
            \<lparr>smtp_connect = (\<lambda>h p. None), smtp_sendmail = (\<lambda>f t m. Inr [''b@x'']),
             smtp_quit = (None :: unit option)\<rparr>
            ''<p>ok</p>'' ''text/html'') = Inr 2
   \<and> fst (Emailer_send
            \<lparr>sender = ''me@localhost'', recipients = [''a@x'', ''b@x''], subject = ''Report'',
             server = ''localhost'', port = None\<rparr>
            \<lparr>smtp_connect = (\<lambda>h p. Some ()), smtp_sendmail = (\<lambda>f t m. Inr []),
             smtp_quit = None\<rparr>
            ''<p>ok</p>'' ''text/html'') = Inr 0"
proof -
  have sp: "split_on CHR ''/'' ''text/html'' = [''text'', ''html'']" by simp
  show ?thesis
    using sp
      send_counts_recipients_or_zero[OF sp,
        of "\<lparr>sender = ''me@localhost'', recipients = [''a@x'', ''b@x''], subject = ''Report'',
             server = ''localhost'', port = None\<rparr>"
           "\<lparr>smtp_connect = (\<lambda>h p. None), smtp_sendmail = (\<lambda>f t m. Inr [''b@x'']),
             smtp_quit = (None :: unit option)\<rparr>" "''<p>ok</p>''"]
      send_counts_recipients_or_zero[OF sp,
        of "\<lparr>sender = ''me@localhost'', recipients = [''a@x'', ''b@x''], subject = ''Report'',
             server = ''localhost'', port = None\<rparr>"
           "\<lparr>smtp_connect = (\<lambda>h p. Some ()), smtp_sendmail = (\<lambda>f t m. Inr []),
             smtp_quit = None\<rparr>" "''<p>ok</p>''"]
    by simp
qed

text \<open>
  Claim C10. The format is split before the \<^verbatim>\<open>try\<close> block: when it does not contain exactly
  one \<open>/\<close>, \<^verbatim>\<open>send\<close> raises \<^verbatim>\<open>ValueError\<close> and makes no call to the SMTP library; when it
  contains exactly one, \<^verbatim>\<open>send\<close> returns a number and its first call is the connection.
\<close>

theorem send_bad_format_raises:
  "(count_list fmt CHR ''/'' \<noteq> 1 \<longrightarrow> Emailer_send E net text fmt = (Inl ValueError, []))
   \<and> (count_list fmt CHR ''/'' = 1 \<longrightarrow>
        (\<exists>n. fst (Emailer_send E net text fmt) = Inr n)
        \<and> hd (snd (Emailer_send E net text fmt)) = Connect)"
proof (cases "count_list fmt CHR ''/'' = 1")
  case True
  then have "length (split_on CHR ''/'' fmt) = 2" by (simp add: split_on_length)
  then obtain a b where ab: "split_on CHR ''/'' fmt = [a, b]"
    using length_two[of "split_on CHR ''/'' fmt"] by auto
  show ?thesis
  proof -
    have "(\<exists>n. fst (Emailer_send E net text fmt) = Inr n)
        \<and> hd (snd (Emailer_send E net text fmt)) = Connect"
      unfolding send_two_parts[OF ab]
      by (cases "smtp_connect net (server E) (port E)";
          cases "smtp_sendmail net (sender E) (recipients E) (build_message E text b)";
          cases "smtp_quit net") simp_all
    then show ?thesis using True by simp
  qed
next
  case False
  then have "length (split_on CHR ''/'' fmt) \<noteq> 2" by (simp add: split_on_length)
  then have "Emailer_send E net text fmt = (Inl ValueError, [])" by (rule send_other_parts)
  then show ?thesis using False by simp
qed

theorem send_bad_format_raises_witness:
  "count_list ''plain'' CHR ''/'' \<noteq> 1
   \<and> Emailer_send
        \<lparr>sender = ''me@localhost'', recipients = [''a@x''], subject = ''Report'',
         server = ''localhost'', port = None\<rparr>
        \<lparr>smtp_connect = (\<lambda>h p. None), smtp_sendmail = (\<lambda>f t m. Inr []),
         smtp_quit = (None :: unit option)\<rparr>
        ''hello'' ''plain'' = (Inl ValueError, [])
   \<and> count_list ''text/plain'' CHR ''/'' = 1
   \<and> (\<exists>n. fst (Emailer_send
        \<lparr>sender = ''me@localhost'', recipients = [''a@x''], subject = ''Report'',
         server = ''localhost'', port = None\<rparr>
        \<lparr>smtp_connect = (\<lambda>h p. None), smtp_sendmail = (\<lambda>f t m. Inr []),
         smtp_quit = (None :: unit option)\<rparr>
        ''hello'' ''text/plain'') = Inr n)"
proof -
  have c0: "count_list ''plain'' CHR ''/'' \<noteq> 1" by simp
  have c1: "count_list ''text/plain'' CHR ''/'' = 1" by simp
  show ?thesis
    using c0 c1
      send_bad_format_raises[of "''plain''"
        "\<lparr>sender = ''me@localhost'', recipients = [''a@x''], subject = ''Report'',
         server = ''localhost'', port = None\<rparr>"
        "\<lparr>smtp_connect = (\<lambda>h p. None), smtp_sendmail = (\<lambda>f t m. Inr []),
         smtp_quit = (None :: unit option)\<rparr>" "''hello''"]
      send_bad_format_raises[of "''text/plain''"
        "\<lparr>sender = ''me@localhost'', recipients = [''a@x''], subject = ''Report'',
         server = ''localhost'', port = None\<rparr>"
        "\<lparr>smtp_connect = (\<lambda>h p. None), smtp_sendmail = (\<lambda>f t m. Inr []),
         smtp_quit = (None :: unit option)\<rparr>" "''hello''"]
    by blast
qed

section \<open>Properties of the JSON formatter\<close>

lemma JSONFormatter_format_TypeError: "JSONFormatter_format report = Inl TypeError"
  by (simp add: JSONFormatter_format_def report_obj_def MongoJSONEncoder_default_def)

text \<open>Whatever encoder class is passed: if its \<^verbatim>\<open>default\<close> raises on the header of the
  report, so does \<^verbatim>\<open>json.dumps\<close> on the dictionary built by the formatter.\<close>

lemma dumps_report_obj_raises:
  "dflt (PHeader (hdr report)) = Inl e \<Longrightarrow> dumps dflt (report_obj report) = Inl e"
  by (simp add: report_obj_def)

lemma dumps_list_map:
  "(\<And>x. x \<in> set xs \<Longrightarrow> dumps dflt (f x) = Inr (g x)) \<Longrightarrow>
   dumps_list dflt (map f xs) = Inr (map g xs)"
  by (induction xs) simp_all

lemma Table_values_ok:
  assumes "table_ok T"
  shows "Table_values T = Inr (map (\<lambda>r. dict_of (zip (colnames T) r)) (rows T))"
proof -
  have len: "length r = width T" if "r \<in> set (rows T)" for r
    using assms that by (simp add: table_ok_def list_all_iff)
  have w: "width T = length (colnames T)" using assms by (simp add: table_ok_def)
  have "map (\<lambda>i. (colnames T ! i, r ! i)) [0 ..< width T] = zip (colnames T) r"
    if "r \<in> set (rows T)" for r
    using len[OF that] w by (intro nth_equalityI) simp_all
  then have "map (\<lambda>r. dict_of (map (\<lambda>i. (colnames T ! i, r ! i)) [0 ..< width T])) (rows T)
           = map (\<lambda>r. dict_of (zip (colnames T) r)) (rows T)"
    by simp
  moreover have "list_all (\<lambda>r. width T \<le> length r \<and> width T \<le> length (colnames T)) (rows T)"
    using len w by (simp add: list_all_iff)
  ultimately show ?thesis by (simp add: Table_values_def)
qed

lemma dumps_cond:
  assumes "case body cs of None \<Rightarrow> True | Some T \<Rightarrow> table_ok T"
  shows "dumps ReportJSONEncoder_default (cond_obj cs) = Inr (spec_cond_doc cs)"
proof (cases "body cs")
  case None
  then show ?thesis by (simp add: cond_obj_def spec_cond_doc_def)
next
  case (Some T)
  then have "table_ok T" using assms by simp
  then show ?thesis
    using Some by (simp add: cond_obj_def spec_cond_doc_def Table_values_ok)
qed

lemma dumps_section:
  assumes "list_all (\<lambda>cs. case body cs of None \<Rightarrow> True | Some T \<Rightarrow> table_ok T) (subsections s)"
  shows "dumps ReportJSONEncoder_default (section_obj s) = Inr (spec_section_doc s)"
proof -
  have "dumps_list ReportJSONEncoder_default (map cond_obj (subsections s))
        = Inr (map spec_cond_doc (subsections s))"
    using assms by (intro dumps_list_map dumps_cond) (simp add: list_all_iff)
  then show ?thesis by (simp add: section_obj_def spec_section_doc_def)
qed

lemma ReportJSONEncoder_gives_spec_doc:
  assumes "report_ok report"
  shows "dumps ReportJSONEncoder_default (report_obj report) = Inr (spec_report_doc report)"
proof -
  have "dumps_list ReportJSONEncoder_default (map section_obj (sections report))
        = Inr (map spec_section_doc (sections report))"
    using assms by (intro dumps_list_map dumps_section) (simp add: report_ok_def list_all_iff)
  then show ?thesis by (simp add: report_obj_def spec_report_doc_def)
qed

lemma nightly_check_ok: "report_ok nightly_check"
  by (simp add: report_ok_def nightly_check_def table_ok_def)

text \<open>
  Claim C1. The claim asks that \<^verbatim>\<open>format\<close> returns the document of the specification. The
  formatter passes \<^verbatim>\<open>MongoJSONEncoder\<close> to \<^verbatim>\<open>json.dumps\<close>, which does not know \<^verbatim>\<open>Header\<close> and
  \<^verbatim>\<open>Table\<close> objects: on the report of the end-to-end example (as on every report) the call
  raises \<^verbatim>\<open>TypeError\<close> and returns no document. With \<^verbatim>\<open>ReportJSONEncoder\<close>, which the module
  defines and never uses, \<^verbatim>\<open>json.dumps\<close> returns the document asked for, on the example
  and on every report whose tables were built by the constructor and \<^verbatim>\<open>add\<close>
  (\<open>ReportJSONEncoder_gives_spec_doc\<close>).
\<close>

theorem JSONFormatter_format_raises_on_example:
  "JSONFormatter_format nightly_check = Inl TypeError
   \<and> JSONFormatter_format nightly_check \<noteq> Inr (spec_report_doc nightly_check)
   \<and> dumps ReportJSONEncoder_default (report_obj nightly_check)
       = Inr (spec_report_doc nightly_check)"
  using ReportJSONEncoder_gives_spec_doc[OF nightly_check_ok]
  by (simp add: JSONFormatter_format_def report_obj_def MongoJSONEncoder_default_def)

section \<open>The formatters leave the report unchanged\<close>

lemma prefix_nth: "prefix s t \<Longrightarrow> a < length s \<Longrightarrow> t ! a = s ! a"
  by (auto simp: prefix_def nth_append)

lemma prefix_snoc_upd: "(s @ [x])[length s := y] = s @ [y]"
  by simp

lemma stripe_rows_st_frame:
  "list_all (\<lambda>a. a < length s) as \<Longrightarrow> prefix s t \<Longrightarrow>
   prefix t (snd (stripe_rows_st c p i as t))
   \<and> fst (stripe_rows_st c p i as t) = stripe_rows c p i (map (\<lambda>a. s ! a) as)"
proof (induction as arbitrary: t p i)
  case Nil
  then show ?case by simp
next
  case (Cons a as)
  have a: "a < length s" and rest: "list_all (\<lambda>a. a < length s) as"
    using Cons.prems(1) by simp_all
  have ta: "t ! a = s ! a" using prefix_nth[OF Cons.prems(2) a] .
  let ?s1 = "t @ [s ! a]"
  have p1: "prefix s ?s1" using Cons.prems(2) by (simp add: prefix_prefix)
  have t1: "prefix t ?s1" by simp
  show ?case
  proof (cases "py_pos (length (s ! a)) c")
    case None
    then show ?thesis using ta by (simp add: Let_def)
  next
    case (Some j)
    show ?thesis
    proof (cases "truthy p \<and> py_eq (s ! a ! j) p")
      case True
      let ?s2 = "t @ [(s ! a)[j := VStr []]]"
      have p2: "prefix s ?s2" using Cons.prems(2) by (simp add: prefix_prefix)
      from Cons.IH[OF rest p2, of p i]
      have IH: "prefix ?s2 (snd (stripe_rows_st c p i as ?s2))"
        "fst (stripe_rows_st c p i as ?s2) = stripe_rows c p i (map (\<lambda>a. s ! a) as)"
        by simp_all
      have t3: "prefix t (snd (stripe_rows_st c p i as ?s2))"
        using IH(1) by (meson prefix_order.trans prefixI)
      have step: "stripe_rows_st c p i (a # as) t =
          (case stripe_rows_st c p i as ?s2 of
             (Inl e, s3) \<Rightarrow> (Inl e, s3)
           | (Inr out, s3) \<Rightarrow> (Inr ((i, (s ! a)[j := VStr []]) # out), s3))"
        using Some True ta by (simp add: Let_def split: prod.split sum.split)
      show ?thesis
        unfolding step using IH(2) t3 Some True
        by (cases "stripe_rows_st c p i as ?s2"; cases "fst (stripe_rows_st c p i as ?s2)")
           (auto simp: Let_def)
    next
      case False
      from Cons.IH[OF rest p1, of "s ! a ! j" "Suc i"]
      have IH: "prefix ?s1 (snd (stripe_rows_st c (s ! a ! j) (Suc i) as ?s1))"
        "fst (stripe_rows_st c (s ! a ! j) (Suc i) as ?s1)
           = stripe_rows c (s ! a ! j) (Suc i) (map (\<lambda>a. s ! a) as)"
        by simp_all
      have t3: "prefix t (snd (stripe_rows_st c (s ! a ! j) (Suc i) as ?s1))"
        using IH(1) by (meson prefix_order.trans prefixI)
      have step: "stripe_rows_st c p i (a # as) t =
          (case stripe_rows_st c (s ! a ! j) (Suc i) as ?s1 of
             (Inl e, s3) \<Rightarrow> (Inl e, s3)
           | (Inr out, s3) \<Rightarrow> (Inr ((Suc i, s ! a) # out), s3))"
        using Some False ta by (auto simp: Let_def split: prod.split sum.split)
      show ?thesis
        unfolding step using IH(2) t3 Some False
        by (cases "stripe_rows_st c (s ! a ! j) (Suc i) as ?s1";
            cases "fst (stripe_rows_st c (s ! a ! j) (Suc i) as ?s1)")
           (auto simp: Let_def)
    qed
  qed
qed

lemma html_table_st_frame:
  assumes "list_all (\<lambda>a. a < length s) (rows T)" and "prefix s t"
  shows "prefix t (snd (html_table_st c T t))
       \<and> fst (html_table_st c T t) = html_table c (load_table s T)"
proof -
  note F = stripe_rows_st_frame[OF assms, of c VNone 0]
  show ?thesis
    using F
    by (cases "stripe_rows_st c VNone 0 (rows T) t"; cases "fst (stripe_rows_st c VNone 0 (rows T) t)")
       (auto simp: html_table_st_def html_table_def load_table_def column_names_def)
qed

lemma collect_st_frame:
  assumes "\<And>x t. x \<in> set xs \<Longrightarrow> prefix s t \<Longrightarrow> prefix t (snd (f x t)) \<and> fst (f x t) = g x"
    and "prefix s t"
  shows "prefix t (snd (collect_st f xs t)) \<and> fst (collect_st f xs t) = collect g xs"
  using assms
proof (induction xs arbitrary: t)
  case Nil
  then show ?case by simp
next
  case (Cons x xs)
  have fx: "prefix t (snd (f x t))" "fst (f x t) = g x"
    using Cons.prems(1)[of x t] Cons.prems(2) by simp_all
  have s1: "prefix s (snd (f x t))" using fx(1) Cons.prems(2) by (rule prefix_order.trans[rotated])
  have IH: "prefix (snd (f x t)) (snd (collect_st f xs (snd (f x t))))
          \<and> fst (collect_st f xs (snd (f x t))) = collect g xs"
    using Cons.IH[OF _ s1] Cons.prems(1) by simp
  then have t2: "prefix t (snd (collect_st f xs (snd (f x t))))"
    using fx(1) by (meson prefix_order.trans)
  show ?case
    using fx IH t2
    by (cases "f x t"; cases "fst (f x t)"; cases "collect_st f xs (snd (f x t))";
        cases "fst (collect_st f xs (snd (f x t)))") auto
qed

lemma load_table_prefix:
  "prefix s t \<Longrightarrow> list_all (\<lambda>a. a < length s) (rows T) \<Longrightarrow> load_table t T = load_table s T"
  by (simp add: load_table_def list_all_iff prefix_nth)

lemma load_section_prefix:
  "prefix s t \<Longrightarrow> list_all (\<lambda>a. a < length s) (section_refs x) \<Longrightarrow>
   load_section t x = load_section s x"
proof (induction x)
  case (ReportSection h b subs)
  have b: "map_option (load_table t) b = map_option (load_table s) b"
    using ReportSection.prems by (cases b) (simp_all add: load_table_prefix)
  have "load_section t y = load_section s y" if "y \<in> set subs" for y
    using ReportSection.IH[OF that ReportSection.prems(1)] ReportSection.prems(2) that
    by (auto simp: list_all_iff)
  then show ?case using b by simp
qed

lemma load_report_prefix:
  "prefix s t \<Longrightarrow> refs_ok s report \<Longrightarrow> load_report t report = load_report s report"
  by (auto simp: load_report_def refs_ok_def report_refs_def list_all_iff
           intro!: load_section_prefix)

lemma load_section_sel:
  "header (load_section s x) = header x"
  "body (load_section s x) = map_option (load_table s) (body x)"
  "subsections (load_section s x) = map (load_section s) (subsections x)"
  by (cases x; simp)+

lemma section_refs_body:
  "list_all (\<lambda>a. a < n) (section_refs x) \<Longrightarrow> body x = Some T \<Longrightarrow> list_all (\<lambda>a. a < n) (rows T)"
  by (cases x) simp

lemma section_refs_sub:
  "list_all (\<lambda>a. a < n) (section_refs x) \<Longrightarrow> y \<in> set (subsections x) \<Longrightarrow>
   list_all (\<lambda>a. a < n) (section_refs y)"
  by (cases x) (auto simp: list_all_iff)

lemma html_cond_st_frame:
  assumes "list_all (\<lambda>a. a < length s) (section_refs cs)" and "prefix s t"
  shows "prefix t (snd (html_cond_st c cs t))
       \<and> fst (html_cond_st c cs t) = html_cond c (load_section s cs)"
proof (cases "body cs")
  case None
  then show ?thesis by (simp add: html_cond_st_def html_cond_def load_section_sel)
next
  case (Some T)
  note F = html_table_st_frame[OF section_refs_body[OF assms(1) Some] assms(2), of c]
  show ?thesis
    using F Some
    by (cases "html_table_st c T t"; cases "fst (html_table_st c T t)")
       (auto simp: html_cond_st_def html_cond_def load_section_sel)
qed

lemma collect_map: "collect f (map h xs) = collect (\<lambda>x. f (h x)) xs"
  by (induction xs) (simp_all cong: sum.case_cong)

lemma html_section_st_frame:
  assumes "list_all (\<lambda>a. a < length s) (section_refs sec)" and "prefix s t"
  shows "prefix t (snd (html_section_st c sec t))
       \<and> fst (html_section_st c sec t) = html_section c (load_section s sec)"
proof -
  have C: "prefix t (snd (collect_st (html_cond_st c) (subsections sec) t))
         \<and> fst (collect_st (html_cond_st c) (subsections sec) t)
             = collect (\<lambda>x. html_cond c (load_section s x)) (subsections sec)"
    using html_cond_st_frame[OF section_refs_sub[OF assms(1)]] assms(2)
    by (intro collect_st_frame[where s = s]) auto
  show ?thesis
    using C
    by (cases "collect_st (html_cond_st c) (subsections sec) t";
        cases "fst (collect_st (html_cond_st c) (subsections sec) t)")
       (auto simp: html_section_st_def html_section_def load_section_sel collect_map)
qed

lemma HTMLFormatter_format_st_frame:
  assumes "refs_ok s report"
  shows "prefix s (snd (HTMLFormatter_format_st F report s))
       \<and> fst (HTMLFormatter_format_st F report s) = HTMLFormatter_format F (load_report s report)"
proof -
  have ok: "list_all (\<lambda>a. a < length s) (section_refs x)" if "x \<in> set (sections report)" for x
    using assms that by (auto simp: refs_ok_def report_refs_def list_all_iff)
  have C: "prefix s (snd (collect_st (html_section_st (idcol F)) (sections report) s))
         \<and> fst (collect_st (html_section_st (idcol F)) (sections report) s)
             = collect (\<lambda>x. html_section (idcol F) (load_section s x)) (sections report)"
    using html_section_st_frame[OF ok]
    by (intro collect_st_frame[where s = s]) auto
  show ?thesis
    using C
    by (cases "collect_st (html_section_st (idcol F)) (sections report) s";
        cases "fst (collect_st (html_section_st (idcol F)) (sections report) s)")
       (auto simp: HTMLFormatter_format_st_def HTMLFormatter_format_def HTMLFormatter_lines_def
                   load_report_def collect_map)
qed

text \<open>
  Claim C8. Calling a formatter leaves the report as it was. With the rows as references
  into a store of list objects, all pointing into the store: after \<^verbatim>\<open>format\<close> of the HTML,
  Markdown or JSON formatter the report denotes the same tree (the same titles and pairs of
  every header, the same column names, widths and rows in the same order). The HTML
  formatter only appends the copies of the rows it displays to the store, and its result
  is the one computed on the tree.
\<close>

theorem formatters_leave_report_unchanged:
  assumes "refs_ok s report"
  shows "load_report (snd (HTMLFormatter_format_st F report s)) report = load_report s report
       \<and> prefix s (snd (HTMLFormatter_format_st F report s))
       \<and> fst (HTMLFormatter_format_st F report s) = HTMLFormatter_format F (load_report s report)
       \<and> load_report (snd (MarkdownFormatter_format_st report s)) report = load_report s report
       \<and> load_report (snd (JSONFormatter_format_st report s)) report = load_report s report"
  using HTMLFormatter_format_st_frame[OF assms, of F]
    load_report_prefix[OF _ assms, of "snd (HTMLFormatter_format_st F report s)"]
  by (simp add: MarkdownFormatter_format_st_def JSONFormatter_format_st_def)

theorem formatters_leave_report_unchanged_witness:
  "refs_ok [[VInt 1, VInt 5], [VInt 1, VInt 3]]
     \<lparr>hdr = \<lparr>title = ''R'', kv = []\<rparr>,
      sections = [ReportSection \<lparr>title = ''S'', kv = []\<rparr> None
        [ReportSection \<lparr>title = ''C'', kv = []\<rparr>
           (Some \<lparr>colnames = [''id'', ''n''], rows = [0, 1], width = 2, max_col_widths = [2, 1]\<rparr>)
           []]]\<rparr>
   \<and> snd (HTMLFormatter_format_st \<lparr>sep = [CHR 0x0A], idcol = 0, css = []\<rparr>
     \<lparr>hdr = \<lparr>title = ''R'', kv = []\<rparr>,
      sections = [ReportSection \<lparr>title = ''S'', kv = []\<rparr> None
        [ReportSection \<lparr>title = ''C'', kv = []\<rparr>
           (Some \<lparr>colnames = [''id'', ''n''], rows = [0, 1], width = 2, max_col_widths = [2, 1]\<rparr>)
           []]]\<rparr>
     [[VInt 1, VInt 5], [VInt 1, VInt 3]])
     = [[VInt 1, VInt 5], [VInt 1, VInt 3], [VInt 1, VInt 5], [VStr [], VInt 3]]
   \<and> load_report (snd (HTMLFormatter_format_st \<lparr>sep = [CHR 0x0A], idcol = 0, css = []\<rparr>
     \<lparr>hdr = \<lparr>title = ''R'', kv = []\<rparr>,
      sections = [ReportSection \<lparr>title = ''S'', kv = []\<rparr> None
        [ReportSection \<lparr>title = ''C'', kv = []\<rparr>
           (Some \<lparr>colnames = [''id'', ''n''], rows = [0, 1], width = 2, max_col_widths = [2, 1]\<rparr>)
           []]]\<rparr>
     [[VInt 1, VInt 5], [VInt 1, VInt 3]]))
     \<lparr>hdr = \<lparr>title = ''R'', kv = []\<rparr>,
      sections = [ReportSection \<lparr>title = ''S'', kv = []\<rparr> None
        [ReportSection \<lparr>title = ''C'', kv = []\<rparr>
           (Some \<lparr>colnames = [''id'', ''n''], rows = [0, 1], width = 2, max_col_widths = [2, 1]\<rparr>)
           []]]\<rparr>
     = load_report [[VInt 1, VInt 5], [VInt 1, VInt 3]]
     \<lparr>hdr = \<lparr>title = ''R'', kv = []\<rparr>,
      sections = [ReportSection \<lparr>title = ''S'', kv = []\<rparr> None
        [ReportSection \<lparr>title = ''C'', kv = []\<rparr>
           (Some \<lparr>colnames = [''id'', ''n''], rows = [0, 1], width = 2, max_col_widths = [2, 1]\<rparr>)
           []]]\<rparr>"
proof -
  let ?s = "[[VInt 1, VInt 5], [VInt 1, VInt 3]]"
  let ?R = "\<lparr>hdr = \<lparr>title = ''R'', kv = []\<rparr>,
      sections = [ReportSection \<lparr>title = ''S'', kv = []\<rparr> None
        [ReportSection \<lparr>title = ''C'', kv = []\<rparr>
           (Some \<lparr>colnames = [''id'', ''n''], rows = [0::nat, 1], width = 2, max_col_widths = [2, 1]\<rparr>)
           []]]\<rparr>"
  let ?F = "\<lparr>sep = [CHR 0x0A], idcol = 0, css = []\<rparr>"
  have ok: "refs_ok ?s ?R" by (simp add: refs_ok_def report_refs_def)
  have st: "snd (HTMLFormatter_format_st ?F ?R ?s)
              = [[VInt 1, VInt 5], [VInt 1, VInt 3], [VInt 1, VInt 5], [VStr [], VInt 3]]"
    by (simp add: HTMLFormatter_format_st_def html_section_st_def html_cond_st_def
        html_table_st_def py_pos_def py_eq_def Let_def)
  show ?thesis
    using formatters_leave_report_unchanged[OF ok, of ?F] ok st by simp
qed

section \<open>Properties of adding rows with unicode strings\<close>

lemma add_loop_u_scalar: "add_loop_u i (map Scalar vs) ws = add_loop i vs ws"
  by (induction i vs ws rule: add_loop.induct) (simp_all add: Let_def)

lemma Table_add_u_scalar:
  "Table_add_u (scalar_table T) (map Scalar r)
     = (fst (Table_add T r), scalar_table (snd (Table_add T r)))"
  by (simp add: Table_add_u_def Table_add_def scalar_table_def add_loop_u_scalar Let_def
           split: prod.split)

lemma add_loop_u_raises:
  "\<not> list_all (\<lambda>v. isl (cell_str v) = False) vs \<Longrightarrow> i + length vs \<le> length ws \<Longrightarrow>
   fst (add_loop_u i vs ws) = Some UnicodeEncodeError"
proof (induction i vs ws rule: add_loop_u.induct)
  case (1 i ws)
  then show ?case by simp
next
  case (2 i v vs ws)
  show ?case
  proof (cases "cell_str v")
    case (Inl e)
    then have "e = UnicodeEncodeError" by (cases v) (auto split: if_splits)
    then show ?thesis using Inl by simp
  next
    case (Inr s)
    then have rest: "\<not> list_all (\<lambda>v. isl (cell_str v) = False) vs" using 2(2) by simp
    have i: "i < length ws" using 2(3) by simp
    show ?thesis
      using 2(1)[OF Inr i refl rest] 2(3) Inr i by (simp add: Let_def)
  qed
qed

lemma Table_add_u_raises:
  assumes "length (max_col_widths T) = width T" and "length r = width T"
    and "\<not> list_all (\<lambda>v. isl (cell_str v) = False) r"
  shows "fst (Table_add_u T r) = Some UnicodeEncodeError
       \<and> rows (snd (Table_add_u T r)) = rows T @ [r]
       \<and> nrow (snd (Table_add_u T r)) = nrow T + 1"
  using assms add_loop_u_raises[of r 0 "max_col_widths T"]
  by (auto simp: Table_add_u_def Let_def nrow_def split: prod.split)

lemma add_loop_u_no_error:
  "list_all (\<lambda>v. isl (cell_str v) = False) vs \<Longrightarrow> i + length vs \<le> length ws \<Longrightarrow>
   fst (add_loop_u i vs ws) = None"
proof (induction i vs ws rule: add_loop_u.induct)
  case (1 i ws)
  then show ?case by simp
next
  case (2 i v vs ws)
  then obtain s where s: "cell_str v = Inr s" by (cases "cell_str v") simp_all
  have i: "i < length ws" using 2(3) by simp
  show ?case using 2(1)[OF s i refl] 2(2,3) s i by (simp add: Let_def)
qed

lemma Table_add_u_ok:
  assumes "length (max_col_widths T) = width T" and "length r = width T"
    and "list_all (\<lambda>v. isl (cell_str v) = False) r"
  shows "fst (Table_add_u T r) = None \<and> nrow (snd (Table_add_u T r)) = nrow T + 1"
  using assms add_loop_u_no_error[of r 0 "max_col_widths T"]
  by (auto simp: Table_add_u_def Let_def nrow_def split: prod.split)

lemma Table_add_u_wrong_arity:
  "length r \<noteq> width T \<Longrightarrow> Table_add_u T r = (Some ValueError, T)"
  by (simp add: Table_add_u_def)

text \<open>
  Claim C2. The claim is that \<^verbatim>\<open>add(r)\<close> succeeds and \<open>nrow\<close> grows by one for every row
  with \<open>len(r) == ncol\<close>, and that a failing \<^verbatim>\<open>add\<close> leaves \<open>nrow\<close> unchanged. On the empty
  table with columns \<open>id\<close> and \<open>name\<close>, the row of the integer 1 and the unicode string of
  the one code point 233 has the arity, and \<^verbatim>\<open>add\<close> raises \<^verbatim>\<open>UnicodeEncodeError\<close> after it has
  appended the row: the call fails and \<open>nrow\<close> has gone from 0 to 1. (For rows whose cells all
  have a string form the claim holds: \<open>Table_add_u_ok\<close>, \<open>Table_add_u_wrong_arity\<close>.)
\<close>

theorem Table_add_unicode_row_raises:
  "length [Scalar (VInt 1), Unicode [233]] = ncol (Table_init [''id'', ''name''] :: cell list Table)
   \<and> nrow (Table_init [''id'', ''name''] :: cell list Table) = 0
   \<and> fst (Table_add_u (Table_init [''id'', ''name'']) [Scalar (VInt 1), Unicode [233]])
       = Some UnicodeEncodeError
   \<and> rows (snd (Table_add_u (Table_init [''id'', ''name'']) [Scalar (VInt 1), Unicode [233]]))
       = [[Scalar (VInt 1), Unicode [233]]]
   \<and> nrow (snd (Table_add_u (Table_init [''id'', ''name'']) [Scalar (VInt 1), Unicode [233]])) = 1"
  by (simp add: Table_add_u_def Table_init_def ncol_def nrow_def Let_def)

end
